theory Spec2Isabelle
  imports Main "HOL-Library.Char_ord" "HOL-Library.List_Lexorder" "HOL-Library.Word"
begin

section \<open>Values, errors and placeholder formats\<close>

text \<open>
  Bound arguments are opaque Go values (\<^verbatim>\<open>any\<close>).  The model keeps the
  plain values that can end up in an argument list apart from the values that implement
  \<^verbatim>\<open>Sqlizer\<close> (see \<open>any\<close> below).
\<close>

datatype gval = GNil | GInt int | GString string | GBool bool

text \<open>
  Errors: \<^verbatim>\<open>fmt.Errorf\<close> values carry their message; \<^verbatim>\<open>RunnerNotSet\<close> and
  \<^verbatim>\<open>RunnerNotQueryRunner\<close> are the package's sentinels.
\<close>

datatype error = Errorf string | RunnerNotSet | RunnerNotQueryRunner

text \<open>
  Modelled from the spec: the type \<^verbatim>\<open>PlaceholderFormat\<close> and its four dialects
  (section 6: pass-through, dollar-numbered, colon-numbered, at-p-numbered) are declared
  outside \<^verbatim>\<open>update.go\<close>.
\<close>

datatype placeholder_format = Question | Dollar | Colon | AtP

text \<open>Decimal rendering of a count, as \<^verbatim>\<open>fmt.Sprintf("%d", n)\<close> gives it.\<close>

definition digit_char :: "nat \<Rightarrow> char" where
  "digit_char n = ''0123456789'' ! n"

fun show_nat :: "nat \<Rightarrow> string" where
  "show_nat n = (if n < 10 then [digit_char n] else show_nat (n div 10) @ [digit_char (n mod 10)])"

declare show_nat.simps [simp del]

text \<open>
  Modelled from the spec: the placeholder formatter (section 4.3) is not in
  \<^verbatim>\<open>update.go\<close>.  Markers are counted left to right; a doubled marker is one literal
  marker and consumes no slot; the pass-through dialect leaves the text as it is.
\<close>

fun replacePositionalPlaceholders :: "string \<Rightarrow> nat \<Rightarrow> string \<Rightarrow> string" where
  "replacePositionalPlaceholders prefix i [] = []"
| "replacePositionalPlaceholders prefix i [c] =
     (if c = CHR ''?'' then prefix @ show_nat (Suc i) else [c])"
| "replacePositionalPlaceholders prefix i (c # c' # cs) =
     (if c = CHR ''?'' then
        (if c' = CHR ''?'' then CHR ''?'' # replacePositionalPlaceholders prefix i cs
         else prefix @ show_nat (Suc i) @ replacePositionalPlaceholders prefix (Suc i) (c' # cs))
      else c # replacePositionalPlaceholders prefix i (c' # cs))"

fun ReplacePlaceholders :: "placeholder_format \<Rightarrow> string \<Rightarrow> string \<times> error option" where
  "ReplacePlaceholders Question sql = (sql, None)"
| "ReplacePlaceholders Dollar sql = (replacePositionalPlaceholders ''$'' 0 sql, None)"
| "ReplacePlaceholders Colon sql = (replacePositionalPlaceholders '':'' 0 sql, None)"
| "ReplacePlaceholders AtP sql = (replacePositionalPlaceholders ''@p'' 0 sql, None)"

section \<open>Renderable fragments\<close>

text \<open>
  Modelled from the spec: the other statement builders (\<^verbatim>\<open>SelectBuilder\<close>,
  \<^verbatim>\<open>InsertBuilder\<close>, \<^verbatim>\<open>DeleteBuilder\<close>) are not in \<^verbatim>\<open>update.go\<close>; section 2
  says they follow the shape of the UPDATE builder: the clauses are rendered to a text
  with neutral markers and an argument list (or the first error), and the text is then
  passed through the builder's placeholder format.  A nested builder is kept as its
  format and that clause rendering.
\<close>

record stmtBuilder =
  sb_format :: placeholder_format
  sb_text :: string
  sb_args :: "gval list"
  sb_err :: "error option"

text \<open>
  Modelled from the spec: the implementations of \<^verbatim>\<open>Sqlizer\<close> (section 3 and
  section 9: literal expression, nested statement, aliased wrapper, CTE entry) are not
  in \<^verbatim>\<open>update.go\<close>.  \<open>Part\<close> is what \<^verbatim>\<open>newPart\<close> and \<^verbatim>\<open>newWherePart\<close>
  build from a string predicate and its arguments.  The constructor of a nested builder
  is its dynamic type.
\<close>

datatype sqlizer =
    Expr string "gval list"
  | Part string "gval list"
  | SelectBuilder stmtBuilder
  | InsertBuilder stmtBuilder
  | UpdateBuilder stmtBuilder
  | DeleteBuilder stmtBuilder
  | AliasExpr sqlizer string
  | CteExpr sqlizer string

type_synonym sql_out = "string \<times> gval list \<times> error option"

definition stmt_ToSql :: "stmtBuilder \<Rightarrow> sql_out" where
  "stmt_ToSql s =
     (case sb_err s of
        Some e \<Rightarrow> ([], [], Some e)
      | None \<Rightarrow>
          (case ReplacePlaceholders (sb_format s) (sb_text s) of
             (sqlStr, err) \<Rightarrow> (sqlStr, sb_args s, err)))"

fun sqlizer_ToSql :: "sqlizer \<Rightarrow> sql_out" where
  "sqlizer_ToSql (Expr sql args) = (sql, args, None)"
| "sqlizer_ToSql (Part pred args) = (pred, args, None)"
| "sqlizer_ToSql (SelectBuilder s) = stmt_ToSql s"
| "sqlizer_ToSql (InsertBuilder s) = stmt_ToSql s"
| "sqlizer_ToSql (UpdateBuilder s) = stmt_ToSql s"
| "sqlizer_ToSql (DeleteBuilder s) = stmt_ToSql s"
| "sqlizer_ToSql (AliasExpr e alias) =
     (case sqlizer_ToSql e of
        (sql, args, None) \<Rightarrow> (''('' @ sql @ '') AS '' @ alias, args, None)
      | (sql, args, Some err) \<Rightarrow> (sql, args, Some err))"
| "sqlizer_ToSql (CteExpr e cte) =
     (case sqlizer_ToSql e of
        (sql, args, None) \<Rightarrow> (cte @ '' AS ('' @ sql @ '')'', args, None)
      | (sql, args, Some err) \<Rightarrow> (sql, args, Some err))"

text \<open>The dynamic type test \<^verbatim>\<open>vs.(SelectBuilder)\<close>.\<close>

fun is_SelectBuilder :: "sqlizer \<Rightarrow> bool" where
  "is_SelectBuilder (SelectBuilder s) = True"
| "is_SelectBuilder _ = False"

text \<open>\<^verbatim>\<open>strings.Join(elems, sep)\<close>.\<close>

fun join :: "string list \<Rightarrow> string \<Rightarrow> string" where
  "join [] sep = []"
| "join [x] sep = x"
| "join (x # y # ys) sep = x @ sep @ join (y # ys) sep"

text \<open>
  Modelled from the spec: \<^verbatim>\<open>appendToSql(parts, w, sep, args)\<close> (section 4.2) is not in
  \<^verbatim>\<open>update.go\<close>.  It renders each fragment in order, writes the separator between
  fragments (not before the first, not after the last), appends each fragment's
  arguments to the accumulator, and stops at the first fragment that fails.  The writer
  \<open>w\<close> is the text written so far; on an error the Go function returns no arguments.
\<close>

fun appendToSql_loop ::
  "nat \<Rightarrow> sqlizer list \<Rightarrow> string \<Rightarrow> string \<Rightarrow> gval list \<Rightarrow> string \<times> gval list \<times> error option" where
  "appendToSql_loop i [] w sep args = (w, args, None)"
| "appendToSql_loop i (p # ps) w sep args =
     (case sqlizer_ToSql p of
        (partSql, partArgs, Some err) \<Rightarrow> (w, [], Some err)
      | (partSql, partArgs, None) \<Rightarrow>
          appendToSql_loop (Suc i) ps ((if i > 0 then w @ sep else w) @ partSql) sep
            (args @ partArgs))"

definition appendToSql ::
  "sqlizer list \<Rightarrow> string \<Rightarrow> string \<Rightarrow> gval list \<Rightarrow> string \<times> gval list \<times> error option" where
  "appendToSql parts w sep args = appendToSql_loop 0 parts w sep args"

section \<open>The UPDATE statement\<close>

text \<open>
  \<^verbatim>\<open>setClause.value\<close> has type \<^verbatim>\<open>any\<close>: the type assertion
  \<^verbatim>\<open>setClause.value.(Sqlizer)\<close> separates the values that are renderable fragments
  from the plain values.
\<close>

datatype any = Plain gval | Frag sqlizer

record setClause =
  column :: string
  val :: any

text \<open>
  An execution handle (\<^verbatim>\<open>BaseRunner\<close>) is opaque: an identity, and whether the
  handle also implements \<^verbatim>\<open>QueryRower\<close>.  \<open>None\<close> is the nil interface.
\<close>

datatype runner = Runner (runner_id: nat) (is_QueryRower: bool)

record updateData =
  PlaceholderFormat :: placeholder_format
  RunWith :: "runner option"
  Prefixes :: "sqlizer list"
  Table :: string
  SetClauses :: "setClause list"
  From :: "sqlizer option"
  WhereParts :: "sqlizer list"
  OrderBys :: "string list"
  Limit :: string
  Offset :: string
  Suffixes :: "sqlizer list"

text \<open>
  \<^verbatim>\<open>updateData.ToSql\<close> writes into a buffer and grows \<open>args\<close>; every block of the
  function is a stage on the pair (buffer, args) that either fails with the error the
  function returns there, or hands the pair on.
\<close>

type_synonym buf = "string \<times> gval list"

fun stages :: "(buf \<Rightarrow> error + buf) list \<Rightarrow> buf \<Rightarrow> error + buf" where
  "stages [] s = Inr s"
| "stages (f # fs) s = (case f s of Inl err \<Rightarrow> Inl err | Inr s' \<Rightarrow> stages fs s')"

text \<open>Lines 40--47: the two validations.\<close>

definition update_validate :: "updateData \<Rightarrow> error option" where
  "update_validate d =
     (if length (Table d) = 0 then
        Some (Errorf ''update statements must specify a table'')
      else if length (SetClauses d) = 0 then
        Some (Errorf ''update statements must have at least one Set clause'')
      else None)"

text \<open>Lines 51--58.\<close>

definition write_prefixes :: "updateData \<Rightarrow> buf \<Rightarrow> error + buf" where
  "write_prefixes d = (\<lambda>(sql, args).
     if length (Prefixes d) > 0 then
       (case appendToSql (Prefixes d) sql '' '' args of
          (sql, args, Some err) \<Rightarrow> Inl err
        | (sql, args, None) \<Rightarrow> Inr (sql @ '' '', args))
     else Inr (sql, args))"

text \<open>
  Lines 64--87: the loop over the SET clauses.  \<open>setSqls\<close> is allocated with one
  slot per clause and slot \<open>i\<close> is written at step \<open>i\<close>.
\<close>

fun set_loop ::
  "nat \<Rightarrow> setClause list \<Rightarrow> string list \<Rightarrow> gval list \<Rightarrow> error + (string list \<times> gval list)" where
  "set_loop i [] setSqls args = Inr (setSqls, args)"
| "set_loop i (c # cs) setSqls args =
     (case val c of
        Frag vs \<Rightarrow>
          (case sqlizer_ToSql vs of
             (vsql, vargs, Some err) \<Rightarrow> Inl err
           | (vsql, vargs, None) \<Rightarrow>
               (let valSql = (if is_SelectBuilder vs then ''('' @ vsql @ '')'' else vsql)
                in set_loop (Suc i) cs (setSqls[i := column c @ '' = '' @ valSql]) (args @ vargs)))
      | Plain v \<Rightarrow>
          (let valSql = ''?''
           in set_loop (Suc i) cs (setSqls[i := column c @ '' = '' @ valSql]) (args @ [v])))"

text \<open>Lines 60--88.\<close>

definition write_set :: "updateData \<Rightarrow> buf \<Rightarrow> error + buf" where
  "write_set d = (\<lambda>(sql, args).
     (let sql = sql @ ''UPDATE '';
          sql = sql @ Table d;
          sql = sql @ '' SET ''
      in case set_loop 0 (SetClauses d) (replicate (length (SetClauses d)) []) args of
           Inl err \<Rightarrow> Inl err
         | Inr (setSqls, args) \<Rightarrow> Inr (sql @ join setSqls '', '', args)))"

text \<open>Lines 90--96.\<close>

definition write_from :: "updateData \<Rightarrow> buf \<Rightarrow> error + buf" where
  "write_from d = (\<lambda>(sql, args).
     (case From d of
        Some from \<Rightarrow>
          (case appendToSql [from] (sql @ '' FROM '') [] args of
             (sql, args, Some err) \<Rightarrow> Inl err
           | (sql, args, None) \<Rightarrow> Inr (sql, args))
      | None \<Rightarrow> Inr (sql, args)))"

text \<open>Lines 98--104.\<close>

definition write_where :: "updateData \<Rightarrow> buf \<Rightarrow> error + buf" where
  "write_where d = (\<lambda>(sql, args).
     if length (WhereParts d) > 0 then
       (case appendToSql (WhereParts d) (sql @ '' WHERE '') '' AND '' args of
          (sql, args, Some err) \<Rightarrow> Inl err
        | (sql, args, None) \<Rightarrow> Inr (sql, args))
     else Inr (sql, args))"

text \<open>Lines 106--109, 111--114 and 116--119.\<close>

definition write_order_by :: "updateData \<Rightarrow> buf \<Rightarrow> error + buf" where
  "write_order_by d = (\<lambda>(sql, args).
     if length (OrderBys d) > 0 then Inr (sql @ '' ORDER BY '' @ join (OrderBys d) '', '', args)
     else Inr (sql, args))"

definition write_limit :: "updateData \<Rightarrow> buf \<Rightarrow> error + buf" where
  "write_limit d = (\<lambda>(sql, args).
     if length (Limit d) > 0 then Inr (sql @ '' LIMIT '' @ Limit d, args)
     else Inr (sql, args))"

definition write_offset :: "updateData \<Rightarrow> buf \<Rightarrow> error + buf" where
  "write_offset d = (\<lambda>(sql, args).
     if length (Offset d) > 0 then Inr (sql @ '' OFFSET '' @ Offset d, args)
     else Inr (sql, args))"

text \<open>Lines 121--127.\<close>

definition write_suffixes :: "updateData \<Rightarrow> buf \<Rightarrow> error + buf" where
  "write_suffixes d = (\<lambda>(sql, args).
     if length (Suffixes d) > 0 then
       (case appendToSql (Suffixes d) (sql @ '' '') '' '' args of
          (sql, args, Some err) \<Rightarrow> Inl err
        | (sql, args, None) \<Rightarrow> Inr (sql, args))
     else Inr (sql, args))"

text \<open>Lines 49--127: the buffer starts empty and \<open>args\<close> starts nil.\<close>

definition update_render :: "updateData \<Rightarrow> error + buf" where
  "update_render d =
     stages [write_prefixes d, write_set d, write_from d, write_where d,
             write_order_by d, write_limit d, write_offset d, write_suffixes d] ([], [])"

text \<open>
  \<^verbatim>\<open>updateData.ToSql\<close>: the validations, the stages in the order of the source, and
  the placeholder pass on the whole buffer (lines 129--130).  Every early return gives
  the empty text and no arguments.
\<close>

definition updateData_ToSql :: "updateData \<Rightarrow> sql_out" where
  "updateData_ToSql d =
     (case update_validate d of
        Some err \<Rightarrow> ([], [], Some err)
      | None \<Rightarrow>
          (case update_render d of
             Inl err \<Rightarrow> ([], [], Some err)
           | Inr (sql, args) \<Rightarrow>
               (case ReplacePlaceholders (PlaceholderFormat d) sql of
                  (sqlStr, err) \<Rightarrow> (sqlStr, args, err))))"

subsection \<open>The UPDATE builder\<close>

text \<open>
  Modelled from the spec: \<^verbatim>\<open>builder.Set\<close>, \<^verbatim>\<open>builder.Append\<close>,
  \<^verbatim>\<open>builder.Extend\<close> and \<^verbatim>\<open>builder.GetStruct\<close> belong to the builder core
  (section 4.1), which is not in \<^verbatim>\<open>update.go\<close>: each returns a new snapshot whose record
  is a copy of the original with the named field replaced, appended to or extended.  A
  builder value is identified with the record \<^verbatim>\<open>GetStruct\<close> reads from it.
\<close>

definition UpdateBuilder_PlaceholderFormat :: "updateData \<Rightarrow> placeholder_format \<Rightarrow> updateData" where
  "UpdateBuilder_PlaceholderFormat b f = b\<lparr>PlaceholderFormat := f\<rparr>"

definition UpdateBuilder_RunWith :: "updateData \<Rightarrow> runner option \<Rightarrow> updateData" where
  "UpdateBuilder_RunWith b r = b\<lparr>RunWith := r\<rparr>"

definition UpdateBuilder_ToSql :: "updateData \<Rightarrow> sql_out" where
  "UpdateBuilder_ToSql b = updateData_ToSql b"

definition UpdateBuilder_PrefixExpr :: "updateData \<Rightarrow> sqlizer \<Rightarrow> updateData" where
  "UpdateBuilder_PrefixExpr b e = b\<lparr>Prefixes := Prefixes b @ [e]\<rparr>"

definition UpdateBuilder_Prefix :: "updateData \<Rightarrow> string \<Rightarrow> gval list \<Rightarrow> updateData" where
  "UpdateBuilder_Prefix b sql args = UpdateBuilder_PrefixExpr b (Expr sql args)"

definition UpdateBuilder_Table :: "updateData \<Rightarrow> string \<Rightarrow> updateData" where
  "UpdateBuilder_Table b t = b\<lparr>Table := t\<rparr>"

definition UpdateBuilder_Set :: "updateData \<Rightarrow> string \<Rightarrow> any \<Rightarrow> updateData" where
  "UpdateBuilder_Set b c v = b\<lparr>SetClauses := SetClauses b @ [\<lparr>column = c, val = v\<rparr>]\<rparr>"

text \<open>
  A Go map is a list of entries with distinct keys; the order of the list is the order
  in which \<^verbatim>\<open>range\<close> happens to visit the entries.  Reading a key that is absent
  gives the zero value.
\<close>

type_synonym go_map = "(string \<times> any) list"

definition map_index :: "go_map \<Rightarrow> string \<Rightarrow> any" where
  "map_index clauses key = (case map_of clauses key of Some v \<Rightarrow> v | None \<Rightarrow> Plain GNil)"

fun collect_keys :: "nat \<Rightarrow> go_map \<Rightarrow> string list \<Rightarrow> string list" where
  "collect_keys i [] keys = keys"
| "collect_keys i ((key, v) # rest) keys = collect_keys (Suc i) rest (keys[i := key])"

text \<open>
  \<^verbatim>\<open>sort.Strings\<close> sorts into increasing order of the byte-wise lexicographic
  order of Go strings, which is the order of \<open>string\<close> here.
\<close>

definition sort_Strings :: "string list \<Rightarrow> string list" where
  "sort_Strings keys = sort keys"

definition UpdateBuilder_SetMap :: "updateData \<Rightarrow> go_map \<Rightarrow> updateData" where
  "UpdateBuilder_SetMap b clauses =
     (let keys = collect_keys 0 clauses (replicate (length clauses) []);
          keys = sort_Strings keys
      in foldl (\<lambda>b key. UpdateBuilder_Set b key (map_index clauses key)) b keys)"

definition UpdateBuilder_From :: "updateData \<Rightarrow> string \<Rightarrow> updateData" where
  "UpdateBuilder_From b from = b\<lparr>From := Some (Part from [])\<rparr>"

text \<open>
  Modelled from the spec: \<^verbatim>\<open>SelectBuilder.PlaceholderFormat\<close> is not in
  \<^verbatim>\<open>update.go\<close>; like \<^verbatim>\<open>UpdateBuilder.PlaceholderFormat\<close> it sets the one field.
  \<^verbatim>\<open>Alias(from, alias)\<close> builds the aliased wrapper.
\<close>

definition SelectBuilder_PlaceholderFormat :: "stmtBuilder \<Rightarrow> placeholder_format \<Rightarrow> stmtBuilder" where
  "SelectBuilder_PlaceholderFormat s f = s\<lparr>sb_format := f\<rparr>"

definition Alias :: "sqlizer \<Rightarrow> string \<Rightarrow> sqlizer" where
  "Alias e alias = AliasExpr e alias"

definition UpdateBuilder_FromSelect :: "updateData \<Rightarrow> stmtBuilder \<Rightarrow> string \<Rightarrow> updateData" where
  "UpdateBuilder_FromSelect b from alias =
     (let from = SelectBuilder_PlaceholderFormat from Question
      in b\<lparr>From := Some (Alias (SelectBuilder from) alias)\<rparr>)"

text \<open>
  \<^verbatim>\<open>Where(pred, args...)\<close> appends \<^verbatim>\<open>newWherePart(pred, args...)\<close>, which is not
  in \<^verbatim>\<open>update.go\<close>: the part it builds is the parameter \<open>part\<close>.
\<close>

definition UpdateBuilder_Where :: "updateData \<Rightarrow> sqlizer \<Rightarrow> updateData" where
  "UpdateBuilder_Where b part = b\<lparr>WhereParts := WhereParts b @ [part]\<rparr>"

definition UpdateBuilder_OrderBy :: "updateData \<Rightarrow> string list \<Rightarrow> updateData" where
  "UpdateBuilder_OrderBy b orderBys = b\<lparr>OrderBys := OrderBys b @ orderBys\<rparr>"

definition UpdateBuilder_Limit :: "updateData \<Rightarrow> 64 word \<Rightarrow> updateData" where
  "UpdateBuilder_Limit b limit = b\<lparr>Limit := show_nat (unat limit)\<rparr>"

definition UpdateBuilder_Offset :: "updateData \<Rightarrow> 64 word \<Rightarrow> updateData" where
  "UpdateBuilder_Offset b offset = b\<lparr>Offset := show_nat (unat offset)\<rparr>"

definition UpdateBuilder_SuffixExpr :: "updateData \<Rightarrow> sqlizer \<Rightarrow> updateData" where
  "UpdateBuilder_SuffixExpr b e = b\<lparr>Suffixes := Suffixes b @ [e]\<rparr>"

definition UpdateBuilder_Suffix :: "updateData \<Rightarrow> string \<Rightarrow> gval list \<Rightarrow> updateData" where
  "UpdateBuilder_Suffix b sql args = UpdateBuilder_SuffixExpr b (Expr sql args)"

text \<open>An UPDATE builder with the pass-through format and every other field at its zero value.\<close>

definition emptyUpdate :: updateData where
  "emptyUpdate = \<lparr>PlaceholderFormat = Question, RunWith = None, Prefixes = [], Table = [],
     SetClauses = [], From = None, WhereParts = [], OrderBys = [], Limit = [], Offset = [],
     Suffixes = []\<rparr>"

subsection \<open>Execution\<close>

text \<open>
  Results of the execution layer are opaque.  \<^verbatim>\<open>ExecWith\<close>, \<^verbatim>\<open>QueryWith\<close> and
  \<^verbatim>\<open>QueryRowWith\<close> are not in \<^verbatim>\<open>update.go\<close>: they are parameters, applied to the
  handle and to the rendering of the statement they are given.
\<close>

datatype sql_result = SqlResult nat

datatype sql_rows = SqlRows nat

record row =
  RowScanner :: "nat option"
  row_err :: "error option"

text \<open>\<^verbatim>\<open>updateData.Exec\<close>, lines 32--37.\<close>

definition updateData_Exec ::
  "(runner \<Rightarrow> sql_out \<Rightarrow> sql_result option \<times> error option) \<Rightarrow> updateData
     \<Rightarrow> sql_result option \<times> error option" where
  "updateData_Exec ExecWith d =
     (case RunWith d of
        None \<Rightarrow> (None, Some RunnerNotSet)
      | Some r \<Rightarrow> ExecWith r (updateData_ToSql d))"

section \<open>Common table expressions\<close>

record commonTableExpressionsData =
  cte_PlaceholderFormat :: placeholder_format
  cte_RunWith :: "runner option"
  Recursive :: bool
  CurrentCteName :: string
  Ctes :: "sqlizer list"
  Statement :: "sqlizer option"

text \<open>Lines 315--323: the two validations.\<close>

definition cte_validate :: "commonTableExpressionsData \<Rightarrow> error option" where
  "cte_validate d =
     (if length (Ctes d) = 0 then
        Some (Errorf ''common table expressions statements must have at least one label and subquery'')
      else if Statement d = None then
        Some (Errorf ''common table expressions must one of the following final statement: (select, insert, replace, update, delete)'')
      else None)"

text \<open>
  Lines 325--341.  The validation has made sure that \<open>Statement\<close> is not nil when
  this runs.
\<close>

definition cte_render :: "commonTableExpressionsData \<Rightarrow> error + buf" where
  "cte_render d =
     (let sql = ''WITH '';
          sql = (if Recursive d then sql @ ''RECURSIVE '' else sql)
      in case appendToSql (Ctes d) sql '', '' [] of
           (sql, args, Some err) \<Rightarrow> Inl err
         | (sql, args, None) \<Rightarrow>
             (case appendToSql (case Statement d of Some s \<Rightarrow> [s] | None \<Rightarrow> []) (sql @ '' '') [] args of
                (sql, args, Some err) \<Rightarrow> Inl err
              | (sql, args, None) \<Rightarrow> Inr (sql, args)))"

text \<open>\<^verbatim>\<open>commonTableExpressionsData.toSql\<close>, lines 314--345, and \<^verbatim>\<open>ToSql\<close>.\<close>

definition commonTableExpressionsData_toSql :: "commonTableExpressionsData \<Rightarrow> sql_out" where
  "commonTableExpressionsData_toSql d =
     (case cte_validate d of
        Some err \<Rightarrow> ([], [], Some err)
      | None \<Rightarrow>
          (case cte_render d of
             Inl err \<Rightarrow> ([], [], Some err)
           | Inr (sql, args) \<Rightarrow>
               (case ReplacePlaceholders (cte_PlaceholderFormat d) sql of
                  (sqlStr, err) \<Rightarrow> (sqlStr, args, err))))"

definition commonTableExpressionsData_ToSql :: "commonTableExpressionsData \<Rightarrow> sql_out" where
  "commonTableExpressionsData_ToSql d = commonTableExpressionsData_toSql d"

text \<open>\<^verbatim>\<open>Exec\<close>, \<^verbatim>\<open>Query\<close> and \<^verbatim>\<open>QueryRow\<close> of the record, lines 289--312.\<close>

definition commonTableExpressionsData_Exec ::
  "(runner \<Rightarrow> sql_out \<Rightarrow> sql_result option \<times> error option) \<Rightarrow> commonTableExpressionsData
     \<Rightarrow> sql_result option \<times> error option" where
  "commonTableExpressionsData_Exec ExecWith d =
     (case cte_RunWith d of
        None \<Rightarrow> (None, Some RunnerNotSet)
      | Some r \<Rightarrow> ExecWith r (commonTableExpressionsData_ToSql d))"

definition commonTableExpressionsData_Query ::
  "(runner \<Rightarrow> sql_out \<Rightarrow> sql_rows option \<times> error option) \<Rightarrow> commonTableExpressionsData
     \<Rightarrow> sql_rows option \<times> error option" where
  "commonTableExpressionsData_Query QueryWith d =
     (case cte_RunWith d of
        None \<Rightarrow> (None, Some RunnerNotSet)
      | Some r \<Rightarrow> QueryWith r (commonTableExpressionsData_ToSql d))"

definition commonTableExpressionsData_QueryRow ::
  "(runner \<Rightarrow> sql_out \<Rightarrow> row) \<Rightarrow> commonTableExpressionsData \<Rightarrow> row" where
  "commonTableExpressionsData_QueryRow QueryRowWith d =
     (case cte_RunWith d of
        None \<Rightarrow> \<lparr>RowScanner = None, row_err = Some RunnerNotSet\<rparr>
      | Some r \<Rightarrow>
          (if \<not> is_QueryRower r then \<lparr>RowScanner = None, row_err = Some RunnerNotQueryRunner\<rparr>
           else QueryRowWith r (commonTableExpressionsData_ToSql d)))"

subsection \<open>The builders' convenience calls\<close>

text \<open>
  \<^verbatim>\<open>builder.GetStruct(b)\<close> returns, as an \<^verbatim>\<open>interface{}\<close>, the struct registered
  for the type of \<open>b\<close>: the \<^verbatim>\<open>init\<close> functions register \<^verbatim>\<open>updateData\<close> for
  \<^verbatim>\<open>UpdateBuilder\<close> (line 139) and \<^verbatim>\<open>commonTableExpressionsData\<close> for
  \<^verbatim>\<open>CommonTableExpressionsBuilder\<close> (line 357).  A type assertion without the
  comma-ok form panics when the dynamic type is another one.
\<close>

datatype builder_struct =
    UpdateDataStruct updateData
  | CteDataStruct commonTableExpressionsData
  | SelectDataStruct stmtBuilder

datatype 'a outcome = Panic string | Return 'a

definition UpdateBuilder_GetStruct :: "updateData \<Rightarrow> builder_struct" where
  "UpdateBuilder_GetStruct b = UpdateDataStruct b"

definition CommonTableExpressionsBuilder_GetStruct :: "commonTableExpressionsData \<Rightarrow> builder_struct" where
  "CommonTableExpressionsBuilder_GetStruct b = CteDataStruct b"

text \<open>The name of the dynamic type, as the panic of a failed type assertion prints it.\<close>

fun struct_type_name :: "builder_struct \<Rightarrow> string" where
  "struct_type_name (UpdateDataStruct d) = ''squirrel.updateData''"
| "struct_type_name (CteDataStruct d) = ''squirrel.commonTableExpressionsData''"
| "struct_type_name (SelectDataStruct d) = ''squirrel.selectData''"

fun assert_updateData :: "builder_struct \<Rightarrow> updateData outcome" where
  "assert_updateData (UpdateDataStruct d) = Return d"
| "assert_updateData s =
     Panic (''interface conversion: interface {} is '' @ struct_type_name s
            @ '', not squirrel.updateData'')"

fun assert_selectData :: "builder_struct \<Rightarrow> stmtBuilder outcome" where
  "assert_selectData (SelectDataStruct d) = Return d"
| "assert_selectData s =
     Panic (''interface conversion: interface {} is '' @ struct_type_name s
            @ '', not squirrel.selectData'')"

fun assert_commonTableExpressionsData :: "builder_struct \<Rightarrow> commonTableExpressionsData outcome" where
  "assert_commonTableExpressionsData (CteDataStruct d) = Return d"
| "assert_commonTableExpressionsData s =
     Panic (''interface conversion: interface {} is '' @ struct_type_name s
            @ '', not squirrel.commonTableExpressionsData'')"

text \<open>\<^verbatim>\<open>UpdateBuilder.Exec\<close>, lines 158--161.\<close>

definition UpdateBuilder_Exec ::
  "(runner \<Rightarrow> sql_out \<Rightarrow> sql_result option \<times> error option) \<Rightarrow> updateData
     \<Rightarrow> (sql_result option \<times> error option) outcome" where
  "UpdateBuilder_Exec ExecWith b =
     (case assert_updateData (UpdateBuilder_GetStruct b) of
        Panic m \<Rightarrow> Panic m
      | Return data \<Rightarrow> Return (updateData_Exec ExecWith data))"

text \<open>
  \<^verbatim>\<open>CommonTableExpressionsBuilder.Exec\<close>, \<^verbatim>\<open>Query\<close> and \<^verbatim>\<open>QueryRow\<close>, lines
  379--394, assert \<^verbatim>\<open>selectData\<close>.  The methods of \<^verbatim>\<open>selectData\<close> they would call are
  not in \<^verbatim>\<open>update.go\<close> and are parameters.
\<close>

definition CommonTableExpressionsBuilder_Exec ::
  "(stmtBuilder \<Rightarrow> sql_result option \<times> error option) \<Rightarrow> commonTableExpressionsData
     \<Rightarrow> (sql_result option \<times> error option) outcome" where
  "CommonTableExpressionsBuilder_Exec selectData_Exec b =
     (case assert_selectData (CommonTableExpressionsBuilder_GetStruct b) of
        Panic m \<Rightarrow> Panic m
      | Return data \<Rightarrow> Return (selectData_Exec data))"

definition CommonTableExpressionsBuilder_Query ::
  "(stmtBuilder \<Rightarrow> sql_rows option \<times> error option) \<Rightarrow> commonTableExpressionsData
     \<Rightarrow> (sql_rows option \<times> error option) outcome" where
  "CommonTableExpressionsBuilder_Query selectData_Query b =
     (case assert_selectData (CommonTableExpressionsBuilder_GetStruct b) of
        Panic m \<Rightarrow> Panic m
      | Return data \<Rightarrow> Return (selectData_Query data))"

definition CommonTableExpressionsBuilder_QueryRow ::
  "(stmtBuilder \<Rightarrow> row) \<Rightarrow> commonTableExpressionsData \<Rightarrow> row outcome" where
  "CommonTableExpressionsBuilder_QueryRow selectData_QueryRow b =
     (case assert_selectData (CommonTableExpressionsBuilder_GetStruct b) of
        Panic m \<Rightarrow> Panic m
      | Return data \<Rightarrow> Return (selectData_QueryRow data))"

text \<open>\<^verbatim>\<open>CommonTableExpressionsBuilder.ToSql\<close>, lines 404--407.\<close>

definition CommonTableExpressionsBuilder_ToSql :: "commonTableExpressionsData \<Rightarrow> sql_out outcome" where
  "CommonTableExpressionsBuilder_ToSql b =
     (case assert_commonTableExpressionsData (CommonTableExpressionsBuilder_GetStruct b) of
        Panic m \<Rightarrow> Panic m
      | Return data \<Rightarrow> Return (commonTableExpressionsData_ToSql data))"

subsection \<open>The CTE builder\<close>

definition CommonTableExpressionsBuilder_PlaceholderFormat ::
  "commonTableExpressionsData \<Rightarrow> placeholder_format \<Rightarrow> commonTableExpressionsData" where
  "CommonTableExpressionsBuilder_PlaceholderFormat b f = b\<lparr>cte_PlaceholderFormat := f\<rparr>"

definition CommonTableExpressionsBuilder_RunWith ::
  "commonTableExpressionsData \<Rightarrow> runner option \<Rightarrow> commonTableExpressionsData" where
  "CommonTableExpressionsBuilder_RunWith b r = b\<lparr>cte_RunWith := r\<rparr>"

definition CommonTableExpressionsBuilder_Recursive ::
  "commonTableExpressionsData \<Rightarrow> bool \<Rightarrow> commonTableExpressionsData" where
  "CommonTableExpressionsBuilder_Recursive b recursive = b\<lparr>Recursive := recursive\<rparr>"

text \<open>\<^verbatim>\<open>Cte\<close>, lines 424--426, and \<^verbatim>\<open>As\<close>, lines 429--432.\<close>

definition CommonTableExpressionsBuilder_Cte ::
  "commonTableExpressionsData \<Rightarrow> string \<Rightarrow> commonTableExpressionsData" where
  "CommonTableExpressionsBuilder_Cte b cte = b\<lparr>CurrentCteName := cte\<rparr>"

definition CommonTableExpressionsBuilder_As ::
  "commonTableExpressionsData \<Rightarrow> stmtBuilder \<Rightarrow> commonTableExpressionsData" where
  "CommonTableExpressionsBuilder_As b as =
     (let data = b
      in b\<lparr>Ctes := Ctes b @ [CteExpr (SelectBuilder as) (CurrentCteName data)]\<rparr>)"

definition CommonTableExpressionsBuilder_Select ::
  "commonTableExpressionsData \<Rightarrow> stmtBuilder \<Rightarrow> commonTableExpressionsData" where
  "CommonTableExpressionsBuilder_Select b statement = b\<lparr>Statement := Some (SelectBuilder statement)\<rparr>"

definition CommonTableExpressionsBuilder_Insert ::
  "commonTableExpressionsData \<Rightarrow> stmtBuilder \<Rightarrow> commonTableExpressionsData" where
  "CommonTableExpressionsBuilder_Insert b statement = b\<lparr>Statement := Some (InsertBuilder statement)\<rparr>"

definition CommonTableExpressionsBuilder_Replace ::
  "commonTableExpressionsData \<Rightarrow> stmtBuilder \<Rightarrow> commonTableExpressionsData" where
  "CommonTableExpressionsBuilder_Replace b statement = CommonTableExpressionsBuilder_Insert b statement"

text \<open>
  An \<^verbatim>\<open>UpdateBuilder\<close> used as a fragment: its format, and the outcome of its
  validations and clause rendering.
\<close>

definition UpdateBuilder_sqlizer :: "updateData \<Rightarrow> sqlizer" where
  "UpdateBuilder_sqlizer d =
     UpdateBuilder
       (case update_validate d of
          Some err \<Rightarrow> \<lparr>sb_format = PlaceholderFormat d, sb_text = [], sb_args = [], sb_err = Some err\<rparr>
        | None \<Rightarrow>
            (case update_render d of
               Inl err \<Rightarrow> \<lparr>sb_format = PlaceholderFormat d, sb_text = [], sb_args = [], sb_err = Some err\<rparr>
             | Inr (sql, args) \<Rightarrow>
                 \<lparr>sb_format = PlaceholderFormat d, sb_text = sql, sb_args = args, sb_err = None\<rparr>))"

definition CommonTableExpressionsBuilder_Update ::
  "commonTableExpressionsData \<Rightarrow> updateData \<Rightarrow> commonTableExpressionsData" where
  "CommonTableExpressionsBuilder_Update b statement = b\<lparr>Statement := Some (UpdateBuilder_sqlizer statement)\<rparr>"

definition CommonTableExpressionsBuilder_Delete ::
  "commonTableExpressionsData \<Rightarrow> stmtBuilder \<Rightarrow> commonTableExpressionsData" where
  "CommonTableExpressionsBuilder_Delete b statement = b\<lparr>Statement := Some (DeleteBuilder statement)\<rparr>"

text \<open>A CTE builder with the pass-through format and every other field at its zero value.\<close>

definition emptyCte :: commonTableExpressionsData where
  "emptyCte = \<lparr>cte_PlaceholderFormat = Question, cte_RunWith = None, Recursive = False,
     CurrentCteName = [], Ctes = [], Statement = None\<rparr>"

section \<open>Lineages of builder snapshots\<close>

text \<open>The chained calls of the UPDATE builder, lines 146--260.\<close>

datatype update_call =
    CallPlaceholderFormat placeholder_format
  | CallRunWith "runner option"
  | CallPrefix string "gval list"
  | CallPrefixExpr sqlizer
  | CallTable string
  | CallSet string any
  | CallSetMap go_map
  | CallFrom string
  | CallFromSelect stmtBuilder string
  | CallWhere sqlizer
  | CallOrderBy "string list"
  | CallLimit "64 word"
  | CallOffset "64 word"
  | CallSuffix string "gval list"
  | CallSuffixExpr sqlizer

fun call :: "update_call \<Rightarrow> updateData \<Rightarrow> updateData" where
  "call (CallPlaceholderFormat f) b = UpdateBuilder_PlaceholderFormat b f"
| "call (CallRunWith r) b = UpdateBuilder_RunWith b r"
| "call (CallPrefix sql args) b = UpdateBuilder_Prefix b sql args"
| "call (CallPrefixExpr e) b = UpdateBuilder_PrefixExpr b e"
| "call (CallTable t) b = UpdateBuilder_Table b t"
| "call (CallSet c v) b = UpdateBuilder_Set b c v"
| "call (CallSetMap clauses) b = UpdateBuilder_SetMap b clauses"
| "call (CallFrom from) b = UpdateBuilder_From b from"
| "call (CallFromSelect from alias) b = UpdateBuilder_FromSelect b from alias"
| "call (CallWhere part) b = UpdateBuilder_Where b part"
| "call (CallOrderBy orderBys) b = UpdateBuilder_OrderBy b orderBys"
| "call (CallLimit limit) b = UpdateBuilder_Limit b limit"
| "call (CallOffset offset) b = UpdateBuilder_Offset b offset"
| "call (CallSuffix sql args) b = UpdateBuilder_Suffix b sql args"
| "call (CallSuffixExpr e) b = UpdateBuilder_SuffixExpr b e"

text \<open>
  Modelled from the spec: the builder core (section 4.1: \<^verbatim>\<open>builder.Set\<close>,
  \<^verbatim>\<open>builder.Append\<close>, \<^verbatim>\<open>builder.Extend\<close>, \<^verbatim>\<open>builder.GetStruct\<close>) is not in
  \<^verbatim>\<open>update.go\<close>.  A program holds a store.  A snapshot keeps its scalar fields by
  value and its sequence fields by reference, as the address of an array in the store;
  a builder value is the address of a snapshot.  Every operation reads the snapshot of
  the builder it is called on and makes the new snapshot as a shallow copy of it, so the
  copy shares the arrays of the original.  \<open>Set\<close> replaces the named field in the
  copy.  \<open>Append\<close> and \<open>Extend\<close> copy on write: they put the old elements and the
  new ones in a fresh array and make the named field of the copy refer to it.  A field
  name that the record does not have, a value of the wrong type for the field, or a
  builder that does not exist is a programmer error, and the operation panics.
\<close>

datatype elem = ESqlizer sqlizer | EClause setClause | EString string

datatype fval =
    VFormat placeholder_format
  | VRunner "runner option"
  | VText string
  | VFragment "sqlizer option"

record snapshot =
  s_PlaceholderFormat :: placeholder_format
  s_RunWith :: "runner option"
  s_Prefixes :: nat
  s_Table :: string
  s_SetClauses :: nat
  s_From :: "sqlizer option"
  s_WhereParts :: nat
  s_OrderBys :: nat
  s_Limit :: string
  s_Offset :: string
  s_Suffixes :: nat

record store =
  snapshots :: "snapshot list"
  arrays :: "elem list list"

text \<open>The scalar fields of \<^verbatim>\<open>updateData\<close>, by the names \<^verbatim>\<open>update.go\<close> passes.\<close>

definition set_field :: "string \<Rightarrow> fval \<Rightarrow> snapshot \<Rightarrow> snapshot option" where
  "set_field name v r =
     (if name = ''PlaceholderFormat'' then
        (case v of VFormat f \<Rightarrow> Some (r\<lparr>s_PlaceholderFormat := f\<rparr>) | _ \<Rightarrow> None)
      else if name = ''RunWith'' then
        (case v of VRunner x \<Rightarrow> Some (r\<lparr>s_RunWith := x\<rparr>) | _ \<Rightarrow> None)
      else if name = ''Table'' then
        (case v of VText t \<Rightarrow> Some (r\<lparr>s_Table := t\<rparr>) | _ \<Rightarrow> None)
      else if name = ''From'' then
        (case v of VFragment f \<Rightarrow> Some (r\<lparr>s_From := f\<rparr>) | _ \<Rightarrow> None)
      else if name = ''Limit'' then
        (case v of VText t \<Rightarrow> Some (r\<lparr>s_Limit := t\<rparr>) | _ \<Rightarrow> None)
      else if name = ''Offset'' then
        (case v of VText t \<Rightarrow> Some (r\<lparr>s_Offset := t\<rparr>) | _ \<Rightarrow> None)
      else None)"

text \<open>The sequence fields: the array a field refers to, and the field made to refer to another.\<close>

definition seq_ref :: "string \<Rightarrow> snapshot \<Rightarrow> nat option" where
  "seq_ref name r =
     (if name = ''Prefixes'' then Some (s_Prefixes r)
      else if name = ''SetClauses'' then Some (s_SetClauses r)
      else if name = ''WhereParts'' then Some (s_WhereParts r)
      else if name = ''OrderBys'' then Some (s_OrderBys r)
      else if name = ''Suffixes'' then Some (s_Suffixes r)
      else None)"

definition put_ref :: "string \<Rightarrow> nat \<Rightarrow> snapshot \<Rightarrow> snapshot" where
  "put_ref name a r =
     (if name = ''Prefixes'' then r\<lparr>s_Prefixes := a\<rparr>
      else if name = ''SetClauses'' then r\<lparr>s_SetClauses := a\<rparr>
      else if name = ''WhereParts'' then r\<lparr>s_WhereParts := a\<rparr>
      else if name = ''OrderBys'' then r\<lparr>s_OrderBys := a\<rparr>
      else if name = ''Suffixes'' then r\<lparr>s_Suffixes := a\<rparr>
      else r)"

text \<open>The element type of a sequence field: \<^verbatim>\<open>[]setClause\<close>, \<^verbatim>\<open>[]string\<close> or \<^verbatim>\<open>[]Sqlizer\<close>.\<close>

fun elem_ok :: "string \<Rightarrow> elem \<Rightarrow> bool" where
  "elem_ok name (EClause c) = (name = ''SetClauses'')"
| "elem_ok name (EString s) = (name = ''OrderBys'')"
| "elem_ok name (ESqlizer e) = (name = ''Prefixes'' \<or> name = ''WhereParts'' \<or> name = ''Suffixes'')"

definition core_Set :: "store \<Rightarrow> nat \<Rightarrow> string \<Rightarrow> fval \<Rightarrow> (store \<times> nat) outcome" where
  "core_Set st b name v =
     (if length (snapshots st) \<le> b then Panic ''no such builder''
      else
        (case set_field name v (snapshots st ! b) of
           None \<Rightarrow> Panic ''no such field of that type''
         | Some r' \<Rightarrow>
             Return (st\<lparr>snapshots := snapshots st @ [r']\<rparr>, length (snapshots st))))"

definition core_Extend :: "store \<Rightarrow> nat \<Rightarrow> string \<Rightarrow> elem list \<Rightarrow> (store \<times> nat) outcome" where
  "core_Extend st b name items =
     (if length (snapshots st) \<le> b then Panic ''no such builder''
      else
        (case seq_ref name (snapshots st ! b) of
           None \<Rightarrow> Panic ''no such sequence field''
         | Some a \<Rightarrow>
             (if \<not> list_all (elem_ok name) items then Panic ''element of another type''
              else
                Return
                  (\<lparr>snapshots = snapshots st @ [put_ref name (length (arrays st)) (snapshots st ! b)],
                    arrays = arrays st @ [(arrays st ! a) @ items]\<rparr>,
                   length (snapshots st)))))"

definition core_Append :: "store \<Rightarrow> nat \<Rightarrow> string \<Rightarrow> elem \<Rightarrow> (store \<times> nat) outcome" where
  "core_Append st b name item = core_Extend st b name [item]"

text \<open>
  \<^verbatim>\<open>builder.GetStruct\<close> reads a builder back as an \<^verbatim>\<open>updateData\<close>: the scalar
  fields of its snapshot, and the elements of the arrays its sequence fields refer to.
\<close>

fun sqlizers :: "elem list \<Rightarrow> sqlizer list" where
  "sqlizers [] = []"
| "sqlizers (ESqlizer e # es) = e # sqlizers es"
| "sqlizers (_ # es) = sqlizers es"

fun clauses_of :: "elem list \<Rightarrow> setClause list" where
  "clauses_of [] = []"
| "clauses_of (EClause c # es) = c # clauses_of es"
| "clauses_of (_ # es) = clauses_of es"

fun strings_of :: "elem list \<Rightarrow> string list" where
  "strings_of [] = []"
| "strings_of (EString s # es) = s # strings_of es"
| "strings_of (_ # es) = strings_of es"

definition read_snapshot :: "elem list list \<Rightarrow> snapshot \<Rightarrow> updateData" where
  "read_snapshot arrs r =
     \<lparr>PlaceholderFormat = s_PlaceholderFormat r,
      RunWith = s_RunWith r,
      Prefixes = sqlizers (arrs ! s_Prefixes r),
      Table = s_Table r,
      SetClauses = clauses_of (arrs ! s_SetClauses r),
      From = s_From r,
      WhereParts = sqlizers (arrs ! s_WhereParts r),
      OrderBys = strings_of (arrs ! s_OrderBys r),
      Limit = s_Limit r,
      Offset = s_Offset r,
      Suffixes = sqlizers (arrs ! s_Suffixes r)\<rparr>"

definition store_GetStruct :: "store \<Rightarrow> nat \<Rightarrow> updateData" where
  "store_GetStruct st b = read_snapshot (arrays st) (snapshots st ! b)"

text \<open>A store is well formed when every sequence field of every snapshot refers to an array of the store.\<close>

definition refs_below :: "nat \<Rightarrow> snapshot \<Rightarrow> bool" where
  "refs_below n r =
     (s_Prefixes r < n \<and> s_SetClauses r < n \<and> s_WhereParts r < n \<and> s_OrderBys r < n
      \<and> s_Suffixes r < n)"

definition wf_store :: "store \<Rightarrow> bool" where
  "wf_store st = list_all (refs_below (length (arrays st))) (snapshots st)"

text \<open>
  The store of a program that holds one builder: the pass-through format, every scalar
  field at its zero value, and every sequence field referring to an empty array of its own.
\<close>

definition new_store :: store where
  "new_store =
     \<lparr>snapshots =
        [\<lparr>s_PlaceholderFormat = Question, s_RunWith = None, s_Prefixes = 0, s_Table = [],
          s_SetClauses = 1, s_From = None, s_WhereParts = 2, s_OrderBys = 3, s_Limit = [],
          s_Offset = [], s_Suffixes = 4\<rparr>],
      arrays = [[], [], [], [], []]\<rparr>"

text \<open>
  The chained calls of the UPDATE builder on a store, lines 146--260: each is the call
  of the builder core that the source makes, with the field name the source passes.
\<close>

definition store_PlaceholderFormat :: "store \<Rightarrow> nat \<Rightarrow> placeholder_format \<Rightarrow> (store \<times> nat) outcome" where
  "store_PlaceholderFormat st b f = core_Set st b ''PlaceholderFormat'' (VFormat f)"

definition store_RunWith :: "store \<Rightarrow> nat \<Rightarrow> runner option \<Rightarrow> (store \<times> nat) outcome" where
  "store_RunWith st b runner = core_Set st b ''RunWith'' (VRunner runner)"

definition store_PrefixExpr :: "store \<Rightarrow> nat \<Rightarrow> sqlizer \<Rightarrow> (store \<times> nat) outcome" where
  "store_PrefixExpr st b e = core_Append st b ''Prefixes'' (ESqlizer e)"

definition store_Prefix :: "store \<Rightarrow> nat \<Rightarrow> string \<Rightarrow> gval list \<Rightarrow> (store \<times> nat) outcome" where
  "store_Prefix st b sql args = store_PrefixExpr st b (Expr sql args)"

definition store_Table :: "store \<Rightarrow> nat \<Rightarrow> string \<Rightarrow> (store \<times> nat) outcome" where
  "store_Table st b t = core_Set st b ''Table'' (VText t)"

definition store_Set :: "store \<Rightarrow> nat \<Rightarrow> string \<Rightarrow> any \<Rightarrow> (store \<times> nat) outcome" where
  "store_Set st b c v = core_Append st b ''SetClauses'' (EClause \<lparr>column = c, val = v\<rparr>)"

fun store_SetMap_loop :: "store \<Rightarrow> nat \<Rightarrow> go_map \<Rightarrow> string list \<Rightarrow> (store \<times> nat) outcome" where
  "store_SetMap_loop st b clauses [] = Return (st, b)"
| "store_SetMap_loop st b clauses (key # keys) =
     (case store_Set st b key (map_index clauses key) of
        Panic m \<Rightarrow> Panic m
      | Return (st', b') \<Rightarrow> store_SetMap_loop st' b' clauses keys)"

definition store_SetMap :: "store \<Rightarrow> nat \<Rightarrow> go_map \<Rightarrow> (store \<times> nat) outcome" where
  "store_SetMap st b clauses =
     (let keys = collect_keys 0 clauses (replicate (length clauses) []);
          keys = sort_Strings keys
      in store_SetMap_loop st b clauses keys)"

definition store_From :: "store \<Rightarrow> nat \<Rightarrow> string \<Rightarrow> (store \<times> nat) outcome" where
  "store_From st b from = core_Set st b ''From'' (VFragment (Some (Part from [])))"

definition store_FromSelect :: "store \<Rightarrow> nat \<Rightarrow> stmtBuilder \<Rightarrow> string \<Rightarrow> (store \<times> nat) outcome" where
  "store_FromSelect st b from alias =
     (let from = SelectBuilder_PlaceholderFormat from Question
      in core_Set st b ''From'' (VFragment (Some (Alias (SelectBuilder from) alias))))"

definition store_Where :: "store \<Rightarrow> nat \<Rightarrow> sqlizer \<Rightarrow> (store \<times> nat) outcome" where
  "store_Where st b part = core_Append st b ''WhereParts'' (ESqlizer part)"

definition store_OrderBy :: "store \<Rightarrow> nat \<Rightarrow> string list \<Rightarrow> (store \<times> nat) outcome" where
  "store_OrderBy st b orderBys = core_Extend st b ''OrderBys'' (map EString orderBys)"

definition store_Limit :: "store \<Rightarrow> nat \<Rightarrow> 64 word \<Rightarrow> (store \<times> nat) outcome" where
  "store_Limit st b limit = core_Set st b ''Limit'' (VText (show_nat (unat limit)))"

definition store_Offset :: "store \<Rightarrow> nat \<Rightarrow> 64 word \<Rightarrow> (store \<times> nat) outcome" where
  "store_Offset st b offset = core_Set st b ''Offset'' (VText (show_nat (unat offset)))"

definition store_SuffixExpr :: "store \<Rightarrow> nat \<Rightarrow> sqlizer \<Rightarrow> (store \<times> nat) outcome" where
  "store_SuffixExpr st b e = core_Append st b ''Suffixes'' (ESqlizer e)"

definition store_Suffix :: "store \<Rightarrow> nat \<Rightarrow> string \<Rightarrow> gval list \<Rightarrow> (store \<times> nat) outcome" where
  "store_Suffix st b sql args = store_SuffixExpr st b (Expr sql args)"

fun store_call :: "update_call \<Rightarrow> store \<Rightarrow> nat \<Rightarrow> (store \<times> nat) outcome" where
  "store_call (CallPlaceholderFormat f) st b = store_PlaceholderFormat st b f"
| "store_call (CallRunWith r) st b = store_RunWith st b r"
| "store_call (CallPrefix sql args) st b = store_Prefix st b sql args"
| "store_call (CallPrefixExpr e) st b = store_PrefixExpr st b e"
| "store_call (CallTable t) st b = store_Table st b t"
| "store_call (CallSet c v) st b = store_Set st b c v"
| "store_call (CallSetMap clauses) st b = store_SetMap st b clauses"
| "store_call (CallFrom from) st b = store_From st b from"
| "store_call (CallFromSelect from alias) st b = store_FromSelect st b from alias"
| "store_call (CallWhere part) st b = store_Where st b part"
| "store_call (CallOrderBy orderBys) st b = store_OrderBy st b orderBys"
| "store_call (CallLimit limit) st b = store_Limit st b limit"
| "store_call (CallOffset offset) st b = store_Offset st b offset"
| "store_call (CallSuffix sql args) st b = store_Suffix st b sql args"
| "store_call (CallSuffixExpr e) st b = store_SuffixExpr st b e"

text \<open>
  A program: a sequence of chained calls, each on a builder of the store (one that was
  there at the start, or one that an earlier call returned).
\<close>

fun run_calls :: "store \<Rightarrow> (nat \<times> update_call) list \<Rightarrow> store outcome" where
  "run_calls st [] = Return st"
| "run_calls st ((b, c) # rest) =
     (case store_call c st b of
        Panic m \<Rightarrow> Panic m
      | Return (st', b') \<Rightarrow> run_calls st' rest)"

text \<open>One store extends another: the snapshots and arrays of the first are still there, unchanged.\<close>

definition extends :: "store \<Rightarrow> store \<Rightarrow> bool" where
  "extends st st' =
     (take (length (snapshots st)) (snapshots st') = snapshots st
      \<and> take (length (arrays st)) (arrays st') = arrays st)"

text \<open>
  For comparison, the append that section 4.1 rules out: the copy shares the array
  with the original and the new element is written into the shared array in place.
\<close>

definition shared_Append :: "store \<Rightarrow> nat \<Rightarrow> string \<Rightarrow> elem \<Rightarrow> (store \<times> nat) outcome" where
  "shared_Append st b name item =
     (if length (snapshots st) \<le> b then Panic ''no such builder''
      else
        (case seq_ref name (snapshots st ! b) of
           None \<Rightarrow> Panic ''no such sequence field''
         | Some a \<Rightarrow>
             (if \<not> elem_ok name item then Panic ''element of another type''
              else
                Return
                  (\<lparr>snapshots = snapshots st @ [snapshots st ! b],
                    arrays = (arrays st)[a := (arrays st ! a) @ [item]]\<rparr>,
                   length (snapshots st)))))"

text \<open>What a chained call on a well-formed store gives: a new snapshot that reads as \<open>d\<close>.\<close>

definition step_ok :: "store \<Rightarrow> nat \<Rightarrow> (store \<times> nat) outcome \<Rightarrow> updateData \<Rightarrow> bool" where
  "step_ok st b out d =
     (\<exists>st1. out = Return (st1, length (snapshots st)) \<and> wf_store st1 \<and> extends st st1
            \<and> length (snapshots st1) = Suc (length (snapshots st))
            \<and> store_GetStruct st1 (length (snapshots st)) = d)"

section \<open>The rendering the specification describes\<close>

text \<open>What a fragment renders to: its text, its arguments, and whether it renders at all.\<close>

definition frag_text :: "sqlizer \<Rightarrow> string" where
  "frag_text p = fst (sqlizer_ToSql p)"

definition frag_args :: "sqlizer \<Rightarrow> gval list" where
  "frag_args p = fst (snd (sqlizer_ToSql p))"

definition frag_ok :: "sqlizer \<Rightarrow> bool" where
  "frag_ok p = (snd (snd (sqlizer_ToSql p)) = None)"

text \<open>
  Section 4.4 on a SET assignment: \<open>column = ?\<close> with the value as the argument, unless
  the value is a fragment; then its own text, in parentheses if it is a SELECT
  statement, and its own arguments.
\<close>

definition clause_text :: "setClause \<Rightarrow> string" where
  "clause_text c =
     (case val c of
        Plain v \<Rightarrow> column c @ '' = ?''
      | Frag vs \<Rightarrow>
          (if is_SelectBuilder vs then column c @ '' = ('' @ frag_text vs @ '')''
           else column c @ '' = '' @ frag_text vs))"

definition clause_args :: "setClause \<Rightarrow> gval list" where
  "clause_args c = (case val c of Plain v \<Rightarrow> [v] | Frag vs \<Rightarrow> frag_args vs)"

definition clause_ok :: "setClause \<Rightarrow> bool" where
  "clause_ok c = (case val c of Plain v \<Rightarrow> True | Frag vs \<Rightarrow> frag_ok vs)"

definition update_renders_ok :: "updateData \<Rightarrow> bool" where
  "update_renders_ok d =
     (list_all frag_ok (Prefixes d) \<and> list_all clause_ok (SetClauses d)
      \<and> (case From d of None \<Rightarrow> True | Some f \<Rightarrow> frag_ok f)
      \<and> list_all frag_ok (WhereParts d) \<and> list_all frag_ok (Suffixes d))"

text \<open>Section 4.4, the render order of UPDATE, clause by clause.\<close>

definition spec_prefix_clause :: "updateData \<Rightarrow> string" where
  "spec_prefix_clause d =
     (if Prefixes d = [] then [] else join (map frag_text (Prefixes d)) '' '' @ '' '')"

definition spec_set_clause :: "updateData \<Rightarrow> string" where
  "spec_set_clause d = '' SET '' @ join (map clause_text (SetClauses d)) '', ''"

definition spec_from_clause :: "updateData \<Rightarrow> string" where
  "spec_from_clause d = (case From d of None \<Rightarrow> [] | Some f \<Rightarrow> '' FROM '' @ frag_text f)"

definition spec_where_clause :: "updateData \<Rightarrow> string" where
  "spec_where_clause d =
     (if WhereParts d = [] then [] else '' WHERE '' @ join (map frag_text (WhereParts d)) '' AND '')"

definition spec_order_by_clause :: "updateData \<Rightarrow> string" where
  "spec_order_by_clause d =
     (if OrderBys d = [] then [] else '' ORDER BY '' @ join (OrderBys d) '', '')"

definition spec_limit_clause :: "updateData \<Rightarrow> string" where
  "spec_limit_clause d = (if Limit d = [] then [] else '' LIMIT '' @ Limit d)"

definition spec_offset_clause :: "updateData \<Rightarrow> string" where
  "spec_offset_clause d = (if Offset d = [] then [] else '' OFFSET '' @ Offset d)"

definition spec_suffix_clause :: "updateData \<Rightarrow> string" where
  "spec_suffix_clause d =
     (if Suffixes d = [] then [] else '' '' @ join (map frag_text (Suffixes d)) '' '')"

definition spec_update_text :: "updateData \<Rightarrow> string" where
  "spec_update_text d =
     spec_prefix_clause d @ ''UPDATE '' @ Table d @ spec_set_clause d @ spec_from_clause d
     @ spec_where_clause d @ spec_order_by_clause d @ spec_limit_clause d
     @ spec_offset_clause d @ spec_suffix_clause d"

text \<open>The arguments, in the order in which their clauses appear in the text.\<close>

definition spec_update_args :: "updateData \<Rightarrow> gval list" where
  "spec_update_args d =
     concat (map frag_args (Prefixes d)) @ concat (map clause_args (SetClauses d))
     @ (case From d of None \<Rightarrow> [] | Some f \<Rightarrow> frag_args f)
     @ concat (map frag_args (WhereParts d)) @ concat (map frag_args (Suffixes d))"

text \<open>Section 4.5, the rendering of a CTE statement.\<close>

definition cte_renders_ok :: "commonTableExpressionsData \<Rightarrow> bool" where
  "cte_renders_ok d =
     (list_all frag_ok (Ctes d) \<and> (case Statement d of None \<Rightarrow> True | Some s \<Rightarrow> frag_ok s))"

definition spec_cte_text :: "commonTableExpressionsData \<Rightarrow> string" where
  "spec_cte_text d =
     ''WITH '' @ (if Recursive d then ''RECURSIVE '' else []) @ join (map frag_text (Ctes d)) '', ''
     @ '' '' @ (case Statement d of None \<Rightarrow> [] | Some s \<Rightarrow> frag_text s)"

definition spec_cte_args :: "commonTableExpressionsData \<Rightarrow> gval list" where
  "spec_cte_args d =
     concat (map frag_args (Ctes d)) @ (case Statement d of None \<Rightarrow> [] | Some s \<Rightarrow> frag_args s)"

section \<open>Example statements\<close>

definition ex_select :: stmtBuilder where
  "ex_select = \<lparr>sb_format = Dollar, sb_text = ''SELECT max(age) FROM people WHERE city = ?'',
     sb_args = [GString ''Oslo''], sb_err = None\<rparr>"

definition ex_failing :: stmtBuilder where
  "ex_failing = \<lparr>sb_format = Question, sb_text = [], sb_args = [],
     sb_err = Some (Errorf ''select statements must have at least one result column'')\<rparr>"

definition ex_users :: updateData where
  "ex_users = UpdateBuilder_Table emptyUpdate ''users''"

definition ex_update :: updateData where
  "ex_update =
    UpdateBuilder_PlaceholderFormat
     (UpdateBuilder_Suffix
      (UpdateBuilder_Offset
        (UpdateBuilder_Limit
          (UpdateBuilder_OrderBy
            (UpdateBuilder_Where
              (UpdateBuilder_FromSelect
                (UpdateBuilder_Set
                  (UpdateBuilder_Set
                    (UpdateBuilder_Table
                      (UpdateBuilder_Prefix emptyUpdate ''/* p ? */'' [GInt 1])
                      ''users'')
                    ''name'' (Plain (GString ''bob'')))
                  ''age'' (Frag (SelectBuilder (ex_select\<lparr>sb_format := Question\<rparr>))))
                ex_select ''t'')
              (Part ''id = ?'' [GInt 7]))
            [''name'', ''age DESC''])
          12)
        3)
      ''RETURNING ?'' [GBool True])
     Dollar"

definition ex_update_failing :: updateData where
  "ex_update_failing = UpdateBuilder_Set ex_update ''n'' (Frag (SelectBuilder ex_failing))"

definition ex_map1 :: go_map where
  "ex_map1 = [(''b'', Plain (GInt 2)), (''a'', Plain (GInt 1)), (''ab'', Frag (Expr ''NOW()'' []))]"

definition ex_map2 :: go_map where
  "ex_map2 = [(''ab'', Frag (Expr ''NOW()'' [])), (''a'', Plain (GInt 1)), (''b'', Plain (GInt 2))]"

definition ex_program :: "(nat \<times> update_call) list" where
  "ex_program =
     [(0, CallTable ''users''),
      (1, CallSet ''name'' (Plain (GString ''bob''))),
      (2, CallOrderBy [''name'']),
      (1, CallSet ''age'' (Plain (GInt 7))),
      (1, CallSetMap ex_map1),
      (3, CallWhere (Part ''id = ?'' [GInt 1])),
      (2, CallTable ''people'')]"

text \<open>The store after the calls of \<open>ex_program\<close> on a store with one builder.\<close>

definition ex_final :: store where
  "ex_final = (case run_calls new_store ex_program of Return st \<Rightarrow> st | Panic m \<Rightarrow> new_store)"

definition ex_cte_body :: stmtBuilder where
  "ex_cte_body = \<lparr>sb_format = Dollar, sb_text = ''SELECT a FROM x WHERE id = ?'',
     sb_args = [GInt 1], sb_err = None\<rparr>"

definition ex_cte_final :: stmtBuilder where
  "ex_cte_final = \<lparr>sb_format = Question, sb_text = ''SELECT b FROM t WHERE c = ?'',
     sb_args = [GInt 2], sb_err = None\<rparr>"

text \<open>
  \<^verbatim>\<open>Cte("t").As(body).Select(final)\<close> on a builder with the dollar format, where
  \<open>body\<close> was itself given the dollar format.
\<close>

definition ex_cte :: commonTableExpressionsData where
  "ex_cte =
     CommonTableExpressionsBuilder_Select
       (CommonTableExpressionsBuilder_As
          (CommonTableExpressionsBuilder_Cte
             (CommonTableExpressionsBuilder_PlaceholderFormat emptyCte Dollar) ''t'')
          ex_cte_body)
       ex_cte_final"

text \<open>The same statement, recursive, with a body in the pass-through format.\<close>

definition ex_cte_recursive :: commonTableExpressionsData where
  "ex_cte_recursive =
     CommonTableExpressionsBuilder_Select
       (CommonTableExpressionsBuilder_As
          (CommonTableExpressionsBuilder_Cte
             (CommonTableExpressionsBuilder_Recursive
                (CommonTableExpressionsBuilder_PlaceholderFormat emptyCte Dollar) True) ''t'')
          (ex_cte_body\<lparr>sb_format := Question\<rparr>))
       ex_cte_final"

definition ex_cte_failing :: commonTableExpressionsData where
  "ex_cte_failing = CommonTableExpressionsBuilder_Select ex_cte_recursive ex_failing"

definition ex_cte_unfinished :: commonTableExpressionsData where
  "ex_cte_unfinished =
     CommonTableExpressionsBuilder_As (CommonTableExpressionsBuilder_Cte emptyCte ''t'') ex_cte_body"

section \<open>Facts about the helpers\<close>

lemmas builder_defs = emptyUpdate_def UpdateBuilder_PlaceholderFormat_def
  UpdateBuilder_Suffix_def UpdateBuilder_SuffixExpr_def UpdateBuilder_Offset_def
  UpdateBuilder_Limit_def UpdateBuilder_OrderBy_def UpdateBuilder_Where_def
  UpdateBuilder_FromSelect_def UpdateBuilder_Set_def UpdateBuilder_Table_def
  UpdateBuilder_Prefix_def UpdateBuilder_PrefixExpr_def UpdateBuilder_From_def
  SelectBuilder_PlaceholderFormat_def Alias_def UpdateBuilder_RunWith_def

lemmas cte_builder_defs = emptyCte_def CommonTableExpressionsBuilder_PlaceholderFormat_def
  CommonTableExpressionsBuilder_RunWith_def CommonTableExpressionsBuilder_Recursive_def
  CommonTableExpressionsBuilder_Cte_def CommonTableExpressionsBuilder_As_def
  CommonTableExpressionsBuilder_Select_def

lemmas spec_defs = spec_prefix_clause_def spec_set_clause_def spec_from_clause_def
  spec_where_clause_def spec_order_by_clause_def spec_limit_clause_def spec_offset_clause_def
  spec_suffix_clause_def spec_update_args_def frag_text_def frag_args_def frag_ok_def
  clause_text_def clause_args_def clause_ok_def update_renders_ok_def stmt_ToSql_def
  cte_renders_ok_def spec_cte_text_def spec_cte_args_def

lemma join_Cons: "join (x # xs) sep = x @ concat (map (\<lambda>y. sep @ y) xs)"
  by (induction xs arbitrary: x) auto

lemma frag_ok_ToSql: "frag_ok p \<Longrightarrow> sqlizer_ToSql p = (frag_text p, frag_args p, None)"
  by (simp add: frag_text_def frag_args_def frag_ok_def prod_eq_iff)

lemma frag_not_ok_ToSql: "\<not> frag_ok p \<Longrightarrow> \<exists>s a e. sqlizer_ToSql p = (s, a, Some e)"
  by (cases "sqlizer_ToSql p") (auto simp: frag_ok_def)

lemma appendToSql_loop_ok:
  "list_all frag_ok ps \<Longrightarrow>
   appendToSql_loop i ps w sep args =
     (w @ (if i > 0 then concat (map (\<lambda>p. sep @ frag_text p) ps) else join (map frag_text ps) sep),
      args @ concat (map frag_args ps), None)"
proof (induction ps arbitrary: i w args)
  case Nil
  then show ?case by simp
next
  case (Cons p ps)
  then show ?case
    by (simp add: frag_ok_ToSql join_Cons comp_def)
qed

lemma appendToSql_ok:
  "list_all frag_ok ps \<Longrightarrow>
   appendToSql ps w sep args = (w @ join (map frag_text ps) sep, args @ concat (map frag_args ps), None)"
  by (simp add: appendToSql_def appendToSql_loop_ok)

lemma appendToSql_loop_fail:
  "\<not> list_all frag_ok ps \<Longrightarrow> \<exists>w' e. appendToSql_loop i ps w sep args = (w', [], Some e)"
proof (induction ps arbitrary: i w args)
  case Nil
  then show ?case by simp
next
  case (Cons p ps)
  show ?case
  proof (cases "frag_ok p")
    case True
    with Cons.prems have "\<not> list_all frag_ok ps" by simp
    from Cons.IH [OF this] show ?thesis
      by (simp add: frag_ok_ToSql [OF True])
  next
    case False
    from frag_not_ok_ToSql [OF this] show ?thesis by auto
  qed
qed

lemma appendToSql_fail:
  "\<not> list_all frag_ok ps \<Longrightarrow> \<exists>w' e. appendToSql ps w sep args = (w', [], Some e)"
  by (simp add: appendToSql_def appendToSql_loop_fail)

lemma set_loop_ok:
  "list_all clause_ok cs \<Longrightarrow> i + length cs \<le> length setSqls \<Longrightarrow>
   set_loop i cs setSqls args =
     Inr (take i setSqls @ map clause_text cs @ drop (i + length cs) setSqls,
          args @ concat (map clause_args cs))"
proof (induction cs arbitrary: i setSqls args)
  case Nil
  then show ?case by simp
next
  case (Cons c cs)
  have i: "i < length setSqls" using Cons.prems by simp
  have ok: "list_all clause_ok cs" using Cons.prems by simp
  have len: "Suc i + length cs \<le> length (setSqls[i := x])" for x using Cons.prems by simp
  have upd: "take (Suc i) (setSqls[i := x]) = take i setSqls @ [x]" for x
    using i by (simp add: take_Suc_conv_app_nth)
  show ?case
  proof (cases "val c")
    case (Plain v)
    then show ?thesis
      using Cons.IH [OF ok len] upd
      by (simp add: clause_text_def clause_args_def)
  next
    case (Frag vs)
    with Cons.prems have "frag_ok vs" by (simp add: clause_ok_def)
    then show ?thesis
      using Cons.IH [OF ok len] upd Frag
      by (simp add: clause_text_def clause_args_def frag_ok_ToSql)
  qed
qed

lemma set_loop_fail:
  "\<not> list_all clause_ok cs \<Longrightarrow> \<exists>e. set_loop i cs setSqls args = Inl e"
proof (induction cs arbitrary: i setSqls args)
  case Nil
  then show ?case by simp
next
  case (Cons c cs)
  show ?case
  proof (cases "clause_ok c")
    case True
    with Cons.prems have "\<not> list_all clause_ok cs" by simp
    from Cons.IH [OF this] True show ?thesis
      by (cases "val c") (auto simp: clause_ok_def frag_ok_ToSql Let_def)
  next
    case False
    then obtain vs where vs: "val c = Frag vs" "\<not> frag_ok vs"
      by (cases "val c") (auto simp: clause_ok_def)
    from frag_not_ok_ToSql [OF vs(2)] vs(1) show ?thesis by auto
  qed
qed

lemma write_prefixes_ok:
  "list_all frag_ok (Prefixes d) \<Longrightarrow>
   write_prefixes d (sql, args) = Inr (sql @ spec_prefix_clause d, args @ concat (map frag_args (Prefixes d)))"
  by (simp add: write_prefixes_def spec_prefix_clause_def appendToSql_ok)

lemma write_set_ok:
  "list_all clause_ok (SetClauses d) \<Longrightarrow>
   write_set d (sql, args) =
     Inr (sql @ ''UPDATE '' @ Table d @ spec_set_clause d, args @ concat (map clause_args (SetClauses d)))"
  by (simp add: write_set_def spec_set_clause_def set_loop_ok Let_def)

lemma write_from_ok:
  "(case From d of None \<Rightarrow> True | Some f \<Rightarrow> frag_ok f) \<Longrightarrow>
   write_from d (sql, args) =
     Inr (sql @ spec_from_clause d, args @ (case From d of None \<Rightarrow> [] | Some f \<Rightarrow> frag_args f))"
  by (cases "From d") (simp_all add: write_from_def spec_from_clause_def appendToSql_ok)

lemma write_where_ok:
  "list_all frag_ok (WhereParts d) \<Longrightarrow>
   write_where d (sql, args) = Inr (sql @ spec_where_clause d, args @ concat (map frag_args (WhereParts d)))"
  by (simp add: write_where_def spec_where_clause_def appendToSql_ok)

lemma write_order_by_eq: "write_order_by d (sql, args) = Inr (sql @ spec_order_by_clause d, args)"
  by (simp add: write_order_by_def spec_order_by_clause_def)

lemma write_limit_eq: "write_limit d (sql, args) = Inr (sql @ spec_limit_clause d, args)"
  by (simp add: write_limit_def spec_limit_clause_def)

lemma write_offset_eq: "write_offset d (sql, args) = Inr (sql @ spec_offset_clause d, args)"
  by (simp add: write_offset_def spec_offset_clause_def)

lemma write_suffixes_ok:
  "list_all frag_ok (Suffixes d) \<Longrightarrow>
   write_suffixes d (sql, args) = Inr (sql @ spec_suffix_clause d, args @ concat (map frag_args (Suffixes d)))"
  by (simp add: write_suffixes_def spec_suffix_clause_def appendToSql_ok)

lemma update_render_ok:
  assumes "update_renders_ok d"
  shows "update_render d = Inr (spec_update_text d, spec_update_args d)"
proof -
  from assms have ok: "list_all frag_ok (Prefixes d)" "list_all clause_ok (SetClauses d)"
    "case From d of None \<Rightarrow> True | Some f \<Rightarrow> frag_ok f"
    "list_all frag_ok (WhereParts d)" "list_all frag_ok (Suffixes d)"
    by (simp_all add: update_renders_ok_def)
  show ?thesis
    unfolding update_render_def spec_update_text_def spec_update_args_def
    by (simp add: write_prefixes_ok [OF ok(1)] write_set_ok [OF ok(2)] write_from_ok [OF ok(3)]
        write_where_ok [OF ok(4)] write_order_by_eq write_limit_eq write_offset_eq
        write_suffixes_ok [OF ok(5)])
qed

lemma write_prefixes_fail:
  "\<not> list_all frag_ok (Prefixes d) \<Longrightarrow> \<exists>e. write_prefixes d (sql, args) = Inl e"
  using appendToSql_fail [of "Prefixes d" sql "'' ''" args]
  by (auto simp: write_prefixes_def)

lemma write_set_fail:
  "\<not> list_all clause_ok (SetClauses d) \<Longrightarrow> \<exists>e. write_set d (sql, args) = Inl e"
  using set_loop_fail [of "SetClauses d" 0 "replicate (length (SetClauses d)) []" args]
  by (auto simp: write_set_def Let_def)

lemma write_from_fail:
  "\<not> (case From d of None \<Rightarrow> True | Some f \<Rightarrow> frag_ok f) \<Longrightarrow> \<exists>e. write_from d (sql, args) = Inl e"
proof (cases "From d")
  case None
  then show "\<not> (case From d of None \<Rightarrow> True | Some f \<Rightarrow> frag_ok f) \<Longrightarrow> ?thesis" by simp
next
  case (Some f)
  assume "\<not> (case From d of None \<Rightarrow> True | Some f \<Rightarrow> frag_ok f)"
  with Some have "\<not> list_all frag_ok [f]" by simp
  from appendToSql_fail [OF this, of "sql @ '' FROM ''" "[]" args] Some
  show ?thesis by (auto simp: write_from_def)
qed

lemma write_where_fail:
  "\<not> list_all frag_ok (WhereParts d) \<Longrightarrow> \<exists>e. write_where d (sql, args) = Inl e"
  using appendToSql_fail [of "WhereParts d" "sql @ '' WHERE ''" "'' AND ''" args]
  by (auto simp: write_where_def)

lemma write_suffixes_fail:
  "\<not> list_all frag_ok (Suffixes d) \<Longrightarrow> \<exists>e. write_suffixes d (sql, args) = Inl e"
  using appendToSql_fail [of "Suffixes d" "sql @ '' ''" "'' ''" args]
  by (auto simp: write_suffixes_def)

lemma update_render_fail:
  assumes "\<not> update_renders_ok d"
  shows "\<exists>e. update_render d = Inl e"
proof (cases "list_all frag_ok (Prefixes d)")
  case False
  from write_prefixes_fail [OF this] obtain e where "write_prefixes d ([], []) = Inl e"
    by blast
  then show ?thesis by (simp add: update_render_def)
next
  case p: True
  note s1 = write_prefixes_ok [OF p, of "[]" "[]"]
  show ?thesis
  proof (cases "list_all clause_ok (SetClauses d)")
    case False
    from write_set_fail [OF this] obtain e where
      "write_set d ([] @ spec_prefix_clause d, [] @ concat (map frag_args (Prefixes d))) = Inl e"
      by blast
    with s1 show ?thesis by (simp add: update_render_def)
  next
    case c: True
    note s2 = write_set_ok [OF c]
    show ?thesis
    proof (cases "case From d of None \<Rightarrow> True | Some f \<Rightarrow> frag_ok f")
      case False
      from write_from_fail [OF this] obtain e where
        "write_from d (spec_prefix_clause d @ ''UPDATE '' @ Table d @ spec_set_clause d,
           concat (map frag_args (Prefixes d)) @ concat (map clause_args (SetClauses d))) = Inl e"
        by blast
      with s1 s2 show ?thesis by (simp add: update_render_def)
    next
      case f: True
      note s3 = write_from_ok [OF f]
      show ?thesis
      proof (cases "list_all frag_ok (WhereParts d)")
        case False
        from write_where_fail [OF this] obtain e where
          "write_where d (spec_prefix_clause d @ ''UPDATE '' @ Table d @ spec_set_clause d
              @ spec_from_clause d,
             concat (map frag_args (Prefixes d)) @ concat (map clause_args (SetClauses d))
              @ (case From d of None \<Rightarrow> [] | Some f \<Rightarrow> frag_args f)) = Inl e"
          by blast
        with s1 s2 s3 show ?thesis by (simp add: update_render_def)
      next
        case w: True
        note s4 = write_where_ok [OF w]
        from assms p c f w have "\<not> list_all frag_ok (Suffixes d)"
          by (simp add: update_renders_ok_def)
        from write_suffixes_fail [OF this] obtain e where
          "write_suffixes d (spec_prefix_clause d @ ''UPDATE '' @ Table d @ spec_set_clause d
              @ spec_from_clause d @ spec_where_clause d @ spec_order_by_clause d
              @ spec_limit_clause d @ spec_offset_clause d,
             concat (map frag_args (Prefixes d)) @ concat (map clause_args (SetClauses d))
              @ (case From d of None \<Rightarrow> [] | Some f \<Rightarrow> frag_args f)
              @ concat (map frag_args (WhereParts d))) = Inl e"
          by blast
        with s1 s2 s3 s4 show ?thesis
          by (simp add: update_render_def write_order_by_eq write_limit_eq write_offset_eq)
      qed
    qed
  qed
qed

lemma ReplacePlaceholders_no_error: "snd (ReplacePlaceholders f sql) = None"
  by (cases f) simp_all

lemma ReplacePlaceholders_split:
  "ReplacePlaceholders f sql = (fst (ReplacePlaceholders f sql), None)"
  by (cases f) simp_all

lemma update_validate_None: "update_validate d = None \<longleftrightarrow> Table d \<noteq> [] \<and> SetClauses d \<noteq> []"
  by (simp add: update_validate_def)

lemma updateData_ToSql_ok:
  assumes "Table d \<noteq> []" "SetClauses d \<noteq> []" "update_renders_ok d"
  shows "updateData_ToSql d =
     (fst (ReplacePlaceholders (PlaceholderFormat d) (spec_update_text d)), spec_update_args d, None)"
proof -
  have v: "update_validate d = None" using assms(1,2) by (simp add: update_validate_None)
  obtain t where t: "ReplacePlaceholders (PlaceholderFormat d) (spec_update_text d) = (t, None)"
    using ReplacePlaceholders_split by blast
  show ?thesis
    by (simp add: updateData_ToSql_def v update_render_ok [OF assms(3)] t)
qed

lemma UpdateBuilder_sqlizer_ToSql: "sqlizer_ToSql (UpdateBuilder_sqlizer d) = updateData_ToSql d"
proof (cases "update_validate d")
  case (Some err)
  then show ?thesis
    by (simp add: UpdateBuilder_sqlizer_def updateData_ToSql_def stmt_ToSql_def)
next
  case None
  show ?thesis
  proof (cases "update_render d")
    case (Inl err)
    with None show ?thesis
      by (simp add: UpdateBuilder_sqlizer_def updateData_ToSql_def stmt_ToSql_def)
  next
    case (Inr r)
    with None show ?thesis
      by (cases r) (simp add: UpdateBuilder_sqlizer_def updateData_ToSql_def stmt_ToSql_def)
  qed
qed

lemma updateData_ToSql_fail:
  assumes "\<not> update_renders_ok d"
  shows "\<exists>e. updateData_ToSql d = ([], [], Some e)"
proof -
  from update_render_fail [OF assms] obtain e where "update_render d = Inl e" by blast
  then show ?thesis
    by (cases "update_validate d") (simp_all add: updateData_ToSql_def)
qed

lemma cte_render_ok:
  assumes "cte_renders_ok d"
  shows "cte_render d = Inr (spec_cte_text d, spec_cte_args d)"
proof -
  from assms have ok: "list_all frag_ok (Ctes d)"
    by (simp add: cte_renders_ok_def)
  show ?thesis
  proof (cases "Statement d")
    case None
    then show ?thesis
      by (simp add: cte_render_def Let_def appendToSql_ok [OF ok] appendToSql_ok [of "[]"]
          spec_cte_text_def spec_cte_args_def)
  next
    case (Some s)
    with assms have "list_all frag_ok [s]" by (simp add: cte_renders_ok_def)
    from appendToSql_ok [OF this] Some show ?thesis
      by (simp add: cte_render_def Let_def appendToSql_ok [OF ok]
          spec_cte_text_def spec_cte_args_def)
  qed
qed

lemma cte_render_fail:
  assumes "\<not> cte_renders_ok d"
  shows "\<exists>e. cte_render d = Inl e"
proof (cases "list_all frag_ok (Ctes d)")
  case False
  from appendToSql_fail [OF this] obtain w e where
    "appendToSql (Ctes d) (if Recursive d then ''WITH '' @ ''RECURSIVE '' else ''WITH '') '', '' [] = (w, [], Some e)"
    by blast
  then show ?thesis by (simp add: cte_render_def Let_def)
next
  case True
  with assms have "\<not> list_all frag_ok (case Statement d of Some s \<Rightarrow> [s] | None \<Rightarrow> [])"
    by (simp add: cte_renders_ok_def split: option.splits)
  from appendToSql_fail [OF this] obtain w e where
    "appendToSql (case Statement d of Some s \<Rightarrow> [s] | None \<Rightarrow> [])
       (((if Recursive d then ''WITH '' @ ''RECURSIVE '' else ''WITH '')
          @ join (map frag_text (Ctes d)) '', '') @ '' '') [] ([] @ concat (map frag_args (Ctes d)))
      = (w, [], Some e)"
    by blast
  then show ?thesis
    by (simp add: cte_render_def Let_def appendToSql_ok [OF True])
qed

lemma cte_validate_None: "cte_validate d = None \<longleftrightarrow> Ctes d \<noteq> [] \<and> Statement d \<noteq> None"
  by (simp add: cte_validate_def)

lemma cte_toSql_ok:
  assumes "Ctes d \<noteq> []" "Statement d \<noteq> None" "cte_renders_ok d"
  shows "commonTableExpressionsData_toSql d =
     (fst (ReplacePlaceholders (cte_PlaceholderFormat d) (spec_cte_text d)), spec_cte_args d, None)"
proof -
  have v: "cte_validate d = None" using assms(1,2) by (simp add: cte_validate_None)
  obtain t where t: "ReplacePlaceholders (cte_PlaceholderFormat d) (spec_cte_text d) = (t, None)"
    using ReplacePlaceholders_split by blast
  show ?thesis
    by (simp add: commonTableExpressionsData_toSql_def v cte_render_ok [OF assms(3)] t)
qed

lemma cte_toSql_fail:
  assumes "\<not> cte_renders_ok d"
  shows "\<exists>e. commonTableExpressionsData_toSql d = ([], [], Some e)"
proof -
  from cte_render_fail [OF assms] obtain e where "cte_render d = Inl e" by blast
  then show ?thesis
    by (cases "cte_validate d") (simp_all add: commonTableExpressionsData_toSql_def)
qed

lemma collect_keys_eq:
  "i + length m \<le> length keys \<Longrightarrow>
   collect_keys i m keys = take i keys @ map fst m @ drop (i + length m) keys"
proof (induction i m keys rule: collect_keys.induct)
  case (1 i keys)
  then show ?case by simp
next
  case (2 i key v rest keys)
  then have "take (Suc i) (keys[i := key]) = take i keys @ [key]"
    by (simp add: take_Suc_conv_app_nth)
  with 2 show ?case by simp
qed

lemma collect_keys_all: "collect_keys 0 m (replicate (length m) []) = map fst m"
  by (simp add: collect_keys_eq)

lemma foldl_Set:
  "foldl (\<lambda>b key. UpdateBuilder_Set b key (f key)) b keys =
     b\<lparr>SetClauses := SetClauses b @ map (\<lambda>key. \<lparr>column = key, val = f key\<rparr>) keys\<rparr>"
  by (induction keys arbitrary: b) (simp_all add: UpdateBuilder_Set_def)

lemma UpdateBuilder_SetMap_eq:
  "UpdateBuilder_SetMap b m =
     b\<lparr>SetClauses := SetClauses b
          @ map (\<lambda>key. \<lparr>column = key, val = map_index m key\<rparr>) (sort (map fst m))\<rparr>"
  by (simp add: UpdateBuilder_SetMap_def collect_keys_all sort_Strings_def foldl_Set Let_def)

lemma same_entries_sort:
  assumes "distinct (map fst m1)" "distinct (map fst m2)" "set m1 = set m2"
  shows "sort (map fst m1) = sort (map fst m2)"
proof -
  have "set (map fst m1) = set (map fst m2)" using assms(3) by simp
  then show ?thesis
    using assms(1,2) by (intro sorted_distinct_set_unique) simp_all
qed

lemma same_entries_index:
  assumes "distinct (map fst m1)" "distinct (map fst m2)" "set m1 = set m2"
  shows "map_index m1 = map_index m2"
proof -
  have "map_of m1 = map_of m2" using assms by (simp add: map_of_inject_set)
  then show ?thesis by (simp add: map_index_def fun_eq_iff)
qed

lemma sqlizers_append: "sqlizers (xs @ ys) = sqlizers xs @ sqlizers ys"
  by (induction xs rule: sqlizers.induct) simp_all

lemma clauses_of_append: "clauses_of (xs @ ys) = clauses_of xs @ clauses_of ys"
  by (induction xs rule: clauses_of.induct) simp_all

lemma strings_of_append: "strings_of (xs @ ys) = strings_of xs @ strings_of ys"
  by (induction xs rule: strings_of.induct) simp_all

lemma strings_of_map: "strings_of (map EString xs) = xs"
  by (induction xs) simp_all

lemma extends_refl: "extends st st"
  by (simp add: extends_def)

lemma take_take_eq:
  assumes "take (length xs) ys = xs" and "take (length ys) zs = ys"
  shows "take (length xs) zs = xs"
proof -
  have "length (take (length xs) ys) = length xs"
    using assms(1) by simp
  then have "length xs \<le> length ys"
    by simp
  then have "take (length xs) zs = take (length xs) (take (length ys) zs)"
    by (simp add: min_def)
  with assms show ?thesis by simp
qed

lemma extends_trans:
  assumes "extends st st'" and "extends st' st''"
  shows "extends st st''"
proof -
  from assms have "take (length (snapshots st)) (snapshots st'') = snapshots st"
    unfolding extends_def by (blast intro: take_take_eq)
  moreover from assms have "take (length (arrays st)) (arrays st'') = arrays st"
    unfolding extends_def by (blast intro: take_take_eq)
  ultimately show ?thesis by (simp add: extends_def)
qed

lemma take_eq_nth: "take (length xs) ys = xs \<Longrightarrow> i < length xs \<Longrightarrow> ys ! i = xs ! i"
  by (metis nth_take)

lemma wf_store_refs: "wf_store st \<Longrightarrow> b < length (snapshots st) \<Longrightarrow> refs_below (length (arrays st)) (snapshots st ! b)"
  by (simp add: wf_store_def list_all_length)

lemma read_snapshot_frame:
  assumes "refs_below (length arrs) r" and "take (length arrs) arrs' = arrs"
  shows "read_snapshot arrs' r = read_snapshot arrs r"
proof -
  have "arrs' ! a = arrs ! a" if "a < length arrs" for a
    using take_eq_nth [OF assms(2) that] .
  with assms(1) show ?thesis
    by (simp add: read_snapshot_def refs_below_def)
qed

lemma store_GetStruct_frame:
  assumes "wf_store st" and "extends st st'" and "b < length (snapshots st)"
  shows "store_GetStruct st' b = store_GetStruct st b"
proof -
  from assms(2) have s: "take (length (snapshots st)) (snapshots st') = snapshots st"
    and a: "take (length (arrays st)) (arrays st') = arrays st"
    by (simp_all add: extends_def)
  have "snapshots st' ! b = snapshots st ! b"
    using take_eq_nth [OF s assms(3)] .
  with read_snapshot_frame [OF wf_store_refs [OF assms(1,3)] a]
  show ?thesis by (simp add: store_GetStruct_def)
qed

lemma refs_below_mono: "refs_below n r \<Longrightarrow> n \<le> m \<Longrightarrow> refs_below m r"
  by (auto simp: refs_below_def)

lemma set_field_refs:
  "set_field name v r = Some r' \<Longrightarrow> refs_below n r' = refs_below n r"
  by (auto simp: set_field_def refs_below_def split: if_splits fval.splits)

lemma core_Set_step:
  assumes "wf_store st" and "b < length (snapshots st)"
    and "set_field name v (snapshots st ! b) = Some r'"
  shows "\<exists>st1. core_Set st b name v = Return (st1, length (snapshots st))
           \<and> wf_store st1 \<and> extends st st1 \<and> length (snapshots st1) = Suc (length (snapshots st))
           \<and> store_GetStruct st1 (length (snapshots st)) = read_snapshot (arrays st) r'"
proof -
  let ?st1 = "st\<lparr>snapshots := snapshots st @ [r']\<rparr>"
  have "core_Set st b name v = Return (?st1, length (snapshots st))"
    using assms(2,3) by (simp add: core_Set_def)
  moreover have "wf_store ?st1"
    using assms(1) wf_store_refs [OF assms(1,2)] set_field_refs [OF assms(3)]
    by (simp add: wf_store_def)
  moreover have "extends st ?st1" by (simp add: extends_def)
  moreover have "store_GetStruct ?st1 (length (snapshots st)) = read_snapshot (arrays st) r'"
    by (simp add: store_GetStruct_def)
  ultimately show ?thesis by simp
qed

lemma put_ref_refs:
  "refs_below n r \<Longrightarrow> refs_below (Suc n) (put_ref name n r)"
  by (auto simp: put_ref_def refs_below_def)

lemma core_Extend_step:
  assumes "wf_store st" and "b < length (snapshots st)"
    and "seq_ref name (snapshots st ! b) = Some a" and "list_all (elem_ok name) items"
  shows "\<exists>st1. core_Extend st b name items = Return (st1, length (snapshots st))
           \<and> wf_store st1 \<and> extends st st1 \<and> length (snapshots st1) = Suc (length (snapshots st))
           \<and> store_GetStruct st1 (length (snapshots st)) =
               read_snapshot (arrays st @ [(arrays st ! a) @ items])
                 (put_ref name (length (arrays st)) (snapshots st ! b))"
proof -
  let ?r = "snapshots st ! b"
  let ?st1 = "\<lparr>snapshots = snapshots st @ [put_ref name (length (arrays st)) ?r],
                arrays = arrays st @ [(arrays st ! a) @ items]\<rparr>"
  have "core_Extend st b name items = Return (?st1, length (snapshots st))"
    using assms(2,3,4) by (simp add: core_Extend_def)
  moreover have "wf_store ?st1"
  proof -
    have "list_all (refs_below (Suc (length (arrays st)))) (snapshots st)"
      using assms(1) by (auto simp: wf_store_def list_all_iff intro: refs_below_mono)
    with put_ref_refs [OF wf_store_refs [OF assms(1,2)], of name]
    show ?thesis by (simp add: wf_store_def)
  qed
  moreover have "extends st ?st1" by (simp add: extends_def)
  moreover have "store_GetStruct ?st1 (length (snapshots st)) =
      read_snapshot (arrays st @ [(arrays st ! a) @ items]) (put_ref name (length (arrays st)) ?r)"
    by (simp add: store_GetStruct_def)
  ultimately show ?thesis by simp
qed

lemma read_put_Prefixes:
  assumes "refs_below (length arrs) r"
  shows "read_snapshot (arrs @ [(arrs ! s_Prefixes r) @ [ESqlizer e]]) (put_ref ''Prefixes'' (length arrs) r)
         = UpdateBuilder_PrefixExpr (read_snapshot arrs r) e"
  using assms
  by (simp add: read_snapshot_def put_ref_def refs_below_def nth_append sqlizers_append
      UpdateBuilder_PrefixExpr_def)

lemma read_put_SetClauses:
  assumes "refs_below (length arrs) r"
  shows "read_snapshot (arrs @ [(arrs ! s_SetClauses r) @ [EClause \<lparr>column = c, val = v\<rparr>]])
           (put_ref ''SetClauses'' (length arrs) r)
         = UpdateBuilder_Set (read_snapshot arrs r) c v"
  using assms
  by (simp add: read_snapshot_def put_ref_def refs_below_def nth_append clauses_of_append
      UpdateBuilder_Set_def)

lemma read_put_WhereParts:
  assumes "refs_below (length arrs) r"
  shows "read_snapshot (arrs @ [(arrs ! s_WhereParts r) @ [ESqlizer e]]) (put_ref ''WhereParts'' (length arrs) r)
         = UpdateBuilder_Where (read_snapshot arrs r) e"
  using assms
  by (simp add: read_snapshot_def put_ref_def refs_below_def nth_append sqlizers_append
      UpdateBuilder_Where_def)

lemma read_put_OrderBys:
  assumes "refs_below (length arrs) r"
  shows "read_snapshot (arrs @ [(arrs ! s_OrderBys r) @ map EString xs]) (put_ref ''OrderBys'' (length arrs) r)
         = UpdateBuilder_OrderBy (read_snapshot arrs r) xs"
  using assms
  by (simp add: read_snapshot_def put_ref_def refs_below_def nth_append strings_of_append
      strings_of_map UpdateBuilder_OrderBy_def)

lemma read_put_Suffixes:
  assumes "refs_below (length arrs) r"
  shows "read_snapshot (arrs @ [(arrs ! s_Suffixes r) @ [ESqlizer e]]) (put_ref ''Suffixes'' (length arrs) r)
         = UpdateBuilder_SuffixExpr (read_snapshot arrs r) e"
  using assms
  by (simp add: read_snapshot_def put_ref_def refs_below_def nth_append sqlizers_append
      UpdateBuilder_SuffixExpr_def)

lemma store_PrefixExpr_step:
  assumes "wf_store st" and "b < length (snapshots st)"
  shows "step_ok st b (store_PrefixExpr st b e) (UpdateBuilder_PrefixExpr (store_GetStruct st b) e)"
  using core_Extend_step [OF assms, of "''Prefixes''" "s_Prefixes (snapshots st ! b)" "[ESqlizer e]"]
    read_put_Prefixes [OF wf_store_refs [OF assms], of e]
  by (simp add: step_ok_def store_PrefixExpr_def core_Append_def seq_ref_def store_GetStruct_def)

lemma store_Set_step:
  assumes "wf_store st" and "b < length (snapshots st)"
  shows "step_ok st b (store_Set st b c v) (UpdateBuilder_Set (store_GetStruct st b) c v)"
  using core_Extend_step [OF assms, of "''SetClauses''" "s_SetClauses (snapshots st ! b)"
      "[EClause \<lparr>column = c, val = v\<rparr>]"]
    read_put_SetClauses [OF wf_store_refs [OF assms], of c v]
  by (simp add: step_ok_def store_Set_def core_Append_def seq_ref_def store_GetStruct_def)

lemma store_Where_step:
  assumes "wf_store st" and "b < length (snapshots st)"
  shows "step_ok st b (store_Where st b e) (UpdateBuilder_Where (store_GetStruct st b) e)"
  using core_Extend_step [OF assms, of "''WhereParts''" "s_WhereParts (snapshots st ! b)" "[ESqlizer e]"]
    read_put_WhereParts [OF wf_store_refs [OF assms], of e]
  by (simp add: step_ok_def store_Where_def core_Append_def seq_ref_def store_GetStruct_def)

lemma store_OrderBy_step:
  assumes "wf_store st" and "b < length (snapshots st)"
  shows "step_ok st b (store_OrderBy st b xs) (UpdateBuilder_OrderBy (store_GetStruct st b) xs)"
  using core_Extend_step [OF assms, of "''OrderBys''" "s_OrderBys (snapshots st ! b)" "map EString xs"]
    read_put_OrderBys [OF wf_store_refs [OF assms], of xs]
  by (simp add: step_ok_def store_OrderBy_def seq_ref_def store_GetStruct_def list_all_iff)

lemma store_SuffixExpr_step:
  assumes "wf_store st" and "b < length (snapshots st)"
  shows "step_ok st b (store_SuffixExpr st b e) (UpdateBuilder_SuffixExpr (store_GetStruct st b) e)"
  using core_Extend_step [OF assms, of "''Suffixes''" "s_Suffixes (snapshots st ! b)" "[ESqlizer e]"]
    read_put_Suffixes [OF wf_store_refs [OF assms], of e]
  by (simp add: step_ok_def store_SuffixExpr_def core_Append_def seq_ref_def store_GetStruct_def)

lemma store_PlaceholderFormat_step:
  assumes "wf_store st" and "b < length (snapshots st)"
  shows "step_ok st b (store_PlaceholderFormat st b f)
           (UpdateBuilder_PlaceholderFormat (store_GetStruct st b) f)"
  using core_Set_step [OF assms, of "''PlaceholderFormat''" "VFormat f"
      "(snapshots st ! b)\<lparr>s_PlaceholderFormat := f\<rparr>"]
  by (simp add: step_ok_def store_PlaceholderFormat_def set_field_def store_GetStruct_def
      read_snapshot_def UpdateBuilder_PlaceholderFormat_def)

lemma store_RunWith_step:
  assumes "wf_store st" and "b < length (snapshots st)"
  shows "step_ok st b (store_RunWith st b x) (UpdateBuilder_RunWith (store_GetStruct st b) x)"
  using core_Set_step [OF assms, of "''RunWith''" "VRunner x" "(snapshots st ! b)\<lparr>s_RunWith := x\<rparr>"]
  by (simp add: step_ok_def store_RunWith_def set_field_def store_GetStruct_def
      read_snapshot_def UpdateBuilder_RunWith_def)

lemma store_Table_step:
  assumes "wf_store st" and "b < length (snapshots st)"
  shows "step_ok st b (store_Table st b t) (UpdateBuilder_Table (store_GetStruct st b) t)"
  using core_Set_step [OF assms, of "''Table''" "VText t" "(snapshots st ! b)\<lparr>s_Table := t\<rparr>"]
  by (simp add: step_ok_def store_Table_def set_field_def store_GetStruct_def
      read_snapshot_def UpdateBuilder_Table_def)

lemma store_From_step:
  assumes "wf_store st" and "b < length (snapshots st)"
  shows "step_ok st b (store_From st b from) (UpdateBuilder_From (store_GetStruct st b) from)"
  using core_Set_step [OF assms, of "''From''" "VFragment (Some (Part from []))"
      "(snapshots st ! b)\<lparr>s_From := Some (Part from [])\<rparr>"]
  by (simp add: step_ok_def store_From_def set_field_def store_GetStruct_def
      read_snapshot_def UpdateBuilder_From_def)

lemma store_FromSelect_step:
  assumes "wf_store st" and "b < length (snapshots st)"
  shows "step_ok st b (store_FromSelect st b s a) (UpdateBuilder_FromSelect (store_GetStruct st b) s a)"
  using core_Set_step [OF assms, of "''From''"
      "VFragment (Some (Alias (SelectBuilder (SelectBuilder_PlaceholderFormat s Question)) a))"
      "(snapshots st ! b)\<lparr>s_From := Some (Alias (SelectBuilder (SelectBuilder_PlaceholderFormat s Question)) a)\<rparr>"]
  by (simp add: step_ok_def store_FromSelect_def set_field_def store_GetStruct_def
      read_snapshot_def UpdateBuilder_FromSelect_def)

lemma store_Limit_step:
  assumes "wf_store st" and "b < length (snapshots st)"
  shows "step_ok st b (store_Limit st b n) (UpdateBuilder_Limit (store_GetStruct st b) n)"
  using core_Set_step [OF assms, of "''Limit''" "VText (show_nat (unat n))"
      "(snapshots st ! b)\<lparr>s_Limit := show_nat (unat n)\<rparr>"]
  by (simp add: step_ok_def store_Limit_def set_field_def store_GetStruct_def
      read_snapshot_def UpdateBuilder_Limit_def)

lemma store_Offset_step:
  assumes "wf_store st" and "b < length (snapshots st)"
  shows "step_ok st b (store_Offset st b n) (UpdateBuilder_Offset (store_GetStruct st b) n)"
  using core_Set_step [OF assms, of "''Offset''" "VText (show_nat (unat n))"
      "(snapshots st ! b)\<lparr>s_Offset := show_nat (unat n)\<rparr>"]
  by (simp add: step_ok_def store_Offset_def set_field_def store_GetStruct_def
      read_snapshot_def UpdateBuilder_Offset_def)

lemma step_okD:
  assumes "step_ok st b out d"
  shows "\<exists>st1 b2. out = Return (st1, b2) \<and> wf_store st1 \<and> extends st st1
           \<and> b2 < length (snapshots st1) \<and> length (snapshots st) \<le> b2
           \<and> store_GetStruct st1 b2 = d"
  using assms unfolding step_ok_def by auto

lemma store_Prefix_step:
  assumes "wf_store st" and "b < length (snapshots st)"
  shows "step_ok st b (store_Prefix st b sql args) (UpdateBuilder_Prefix (store_GetStruct st b) sql args)"
  using store_PrefixExpr_step [OF assms]
  by (simp add: store_Prefix_def UpdateBuilder_Prefix_def)

lemma store_Suffix_step:
  assumes "wf_store st" and "b < length (snapshots st)"
  shows "step_ok st b (store_Suffix st b sql args) (UpdateBuilder_Suffix (store_GetStruct st b) sql args)"
  using store_SuffixExpr_step [OF assms]
  by (simp add: store_Suffix_def UpdateBuilder_Suffix_def)

lemma store_SetMap_loop_step:
  assumes "wf_store st" and "b < length (snapshots st)"
  shows "\<exists>st1 b2. store_SetMap_loop st b m keys = Return (st1, b2) \<and> wf_store st1
           \<and> extends st st1 \<and> b2 < length (snapshots st1)
           \<and> (keys \<noteq> [] \<longrightarrow> length (snapshots st) \<le> b2)
           \<and> store_GetStruct st1 b2 =
               foldl (\<lambda>b key. UpdateBuilder_Set b key (map_index m key)) (store_GetStruct st b) keys"
  using assms
proof (induction keys arbitrary: st b)
  case Nil
  then show ?case by (simp add: extends_refl)
next
  case (Cons key keys)
  from store_Set_step [OF Cons.prems, of key "map_index m key"]
  obtain st1 where 1: "store_Set st b key (map_index m key) = Return (st1, length (snapshots st))"
    and w1: "wf_store st1" and e1: "extends st st1"
    and l1: "length (snapshots st1) = Suc (length (snapshots st))"
    and g1: "store_GetStruct st1 (length (snapshots st)) =
        UpdateBuilder_Set (store_GetStruct st b) key (map_index m key)"
    unfolding step_ok_def by blast
  have b1: "length (snapshots st) < length (snapshots st1)" using l1 by simp
  from Cons.IH [OF w1 b1]
  obtain st2 b2 where 2: "store_SetMap_loop st1 (length (snapshots st)) m keys = Return (st2, b2)"
    and w2: "wf_store st2" and e2: "extends st1 st2" and b2: "b2 < length (snapshots st2)"
    and n2: "keys \<noteq> [] \<longrightarrow> length (snapshots st1) \<le> b2"
    and g2: "store_GetStruct st2 b2 =
        foldl (\<lambda>b key. UpdateBuilder_Set b key (map_index m key))
          (store_GetStruct st1 (length (snapshots st))) keys"
    by blast
  have "length (snapshots st) \<le> b2"
  proof (cases keys)
    case Nil
    with 2 show ?thesis by simp
  next
    case (Cons k ks)
    with n2 l1 show ?thesis by simp
  qed
  with 1 2 w2 b2 g1 g2 extends_trans [OF e1 e2] show ?case by simp
qed

lemma store_SetMap_step:
  assumes "wf_store st" and "b < length (snapshots st)"
  shows "\<exists>st1 b2. store_SetMap st b m = Return (st1, b2) \<and> wf_store st1
           \<and> extends st st1 \<and> b2 < length (snapshots st1)
           \<and> (m \<noteq> [] \<longrightarrow> length (snapshots st) \<le> b2)
           \<and> store_GetStruct st1 b2 = UpdateBuilder_SetMap (store_GetStruct st b) m"
proof -
  have "m \<noteq> [] \<Longrightarrow> sort (map fst m) \<noteq> []"
    by (metis Nil_is_map_conv length_0_conv length_sort)
  with store_SetMap_loop_step [OF assms, of m "sort (map fst m)"]
  show ?thesis
    by (auto simp: store_SetMap_def UpdateBuilder_SetMap_def collect_keys_all sort_Strings_def Let_def)
qed

lemma store_call_step:
  assumes "wf_store st" and "b < length (snapshots st)"
  shows "\<exists>st1 b2. store_call c st b = Return (st1, b2) \<and> wf_store st1
           \<and> extends st st1 \<and> b2 < length (snapshots st1)
           \<and> (c \<noteq> CallSetMap [] \<longrightarrow> length (snapshots st) \<le> b2)
           \<and> store_GetStruct st1 b2 = call c (store_GetStruct st b)"
proof (cases c)
  case (CallPlaceholderFormat f)
  with step_okD [OF store_PlaceholderFormat_step [OF assms, of f]] show ?thesis by auto
next
  case (CallRunWith r)
  with step_okD [OF store_RunWith_step [OF assms, of r]] show ?thesis by auto
next
  case (CallPrefix sql args)
  with step_okD [OF store_Prefix_step [OF assms, of sql args]] show ?thesis by auto
next
  case (CallPrefixExpr e)
  with step_okD [OF store_PrefixExpr_step [OF assms, of e]] show ?thesis by auto
next
  case (CallTable t)
  with step_okD [OF store_Table_step [OF assms, of t]] show ?thesis by auto
next
  case (CallSet col v)
  with step_okD [OF store_Set_step [OF assms, of col v]] show ?thesis by auto
next
  case (CallSetMap m)
  with store_SetMap_step [OF assms, of m] show ?thesis by auto
next
  case (CallFrom fr)
  with step_okD [OF store_From_step [OF assms, of fr]] show ?thesis by auto
next
  case (CallFromSelect s a)
  with step_okD [OF store_FromSelect_step [OF assms, of s a]] show ?thesis by auto
next
  case (CallWhere part)
  with step_okD [OF store_Where_step [OF assms, of part]] show ?thesis by auto
next
  case (CallOrderBy xs)
  with step_okD [OF store_OrderBy_step [OF assms, of xs]] show ?thesis by auto
next
  case (CallLimit n)
  with step_okD [OF store_Limit_step [OF assms, of n]] show ?thesis by auto
next
  case (CallOffset n)
  with step_okD [OF store_Offset_step [OF assms, of n]] show ?thesis by auto
next
  case (CallSuffix sql args)
  with step_okD [OF store_Suffix_step [OF assms, of sql args]] show ?thesis by auto
next
  case (CallSuffixExpr e)
  with step_okD [OF store_SuffixExpr_step [OF assms, of e]] show ?thesis by auto
qed

lemma core_Set_invalid: "\<not> b < length (snapshots st) \<Longrightarrow> core_Set st b name v = Panic ''no such builder''"
  by (simp add: core_Set_def)

lemma core_Extend_invalid:
  "\<not> b < length (snapshots st) \<Longrightarrow> core_Extend st b name items = Panic ''no such builder''"
  by (simp add: core_Extend_def)

lemma store_call_invalid:
  assumes "\<not> b < length (snapshots st)" and "store_call c st b = Return (st1, b2)"
  shows "st1 = st"
proof (cases c)
  case (CallSetMap m)
  show ?thesis
  proof (cases "sort (map fst m)")
    case Nil
    with assms(2) CallSetMap show ?thesis
      by (simp add: store_SetMap_def collect_keys_all sort_Strings_def Let_def)
  next
    case (Cons k ks)
    with assms CallSetMap show ?thesis
      by (simp add: store_SetMap_def collect_keys_all sort_Strings_def Let_def store_Set_def
          core_Append_def core_Extend_invalid)
  qed
qed (use assms in \<open>simp_all add: store_PlaceholderFormat_def store_RunWith_def store_Prefix_def
      store_PrefixExpr_def store_Table_def store_Set_def store_From_def store_FromSelect_def
      store_Where_def store_OrderBy_def store_Limit_def store_Offset_def store_Suffix_def
      store_SuffixExpr_def core_Append_def core_Set_invalid core_Extend_invalid Let_def\<close>)

lemma store_call_Return:
  assumes "wf_store st" and "store_call c st b = Return (st1, b2)"
  shows "wf_store st1 \<and> extends st st1"
proof (cases "b < length (snapshots st)")
  case True
  from store_call_step [OF assms(1) True, of c] assms(2) show ?thesis by auto
next
  case False
  from store_call_invalid [OF False assms(2)] assms(1) show ?thesis
    by (simp add: extends_refl)
qed

lemma run_calls_extends:
  "wf_store st \<Longrightarrow> run_calls st calls = Return st' \<Longrightarrow> wf_store st' \<and> extends st st'"
proof (induction calls arbitrary: st)
  case Nil
  then show ?case by (simp add: extends_refl)
next
  case (Cons bc calls)
  obtain b c where bc: "bc = (b, c)" by (cases bc)
  with Cons.prems(2) obtain st1 b2 where 1: "store_call c st b = Return (st1, b2)"
    and 2: "run_calls st1 calls = Return st'"
    by (auto split: outcome.splits)
  from store_call_Return [OF Cons.prems(1) 1] have w1: "wf_store st1" and e1: "extends st st1"
    by simp_all
  from Cons.IH [OF w1 2] e1 show ?case by (blast intro: extends_trans)
qed

text \<open>
  The append in place does change a builder that existed before: the empty builder
  reads with a SET clause after a call on it.
\<close>

lemma in_place_append_interferes:
  "shared_Append new_store 0 ''SetClauses'' (EClause \<lparr>column = ''name'', val = Plain GNil\<rparr>) =
     Return (\<lparr>snapshots = snapshots new_store @ [snapshots new_store ! 0],
              arrays = [[], [EClause \<lparr>column = ''name'', val = Plain GNil\<rparr>], [], [], []]\<rparr>, 1)
   \<and> SetClauses (store_GetStruct new_store 0) = []
   \<and> SetClauses (store_GetStruct
        \<lparr>snapshots = snapshots new_store @ [snapshots new_store ! 0],
         arrays = [[], [EClause \<lparr>column = ''name'', val = Plain GNil\<rparr>], [], [], []]\<rparr> 0) =
       [\<lparr>column = ''name'', val = Plain GNil\<rparr>]"
  by (simp add: shared_Append_def new_store_def seq_ref_def store_GetStruct_def read_snapshot_def)

section \<open>The claims\<close>

text \<open>
  C1.  For an UPDATE record that passes the validations (a table, at least one SET
  clause), \<open>ToSql\<close> emits the clauses in this order: the prefix fragments joined by a
  space, \<open>UPDATE table\<close>, \<open>SET\<close> and the assignments joined by commas, \<open>FROM\<close>
  and the FROM fragment, \<open>WHERE\<close> and the predicates joined by \<open>AND\<close>,
  \<open>ORDER BY\<close> and the order tokens joined by commas, \<open>LIMIT\<close>, \<open>OFFSET\<close>, the
  suffix fragments joined by a space; each optional clause only when it is present; and
  the whole text goes through the placeholder formatter.  This is what is returned when
  every nested fragment renders; when one does not, no text is returned at all.
\<close>

theorem update_ToSql_clause_order:
  assumes "Table d \<noteq> []" and "SetClauses d \<noteq> []"
  shows "(update_renders_ok d \<longrightarrow>
            updateData_ToSql d =
              (fst (ReplacePlaceholders (PlaceholderFormat d)
                 (spec_prefix_clause d @ ''UPDATE '' @ Table d @ spec_set_clause d
                  @ spec_from_clause d @ spec_where_clause d @ spec_order_by_clause d
                  @ spec_limit_clause d @ spec_offset_clause d @ spec_suffix_clause d)),
               spec_update_args d, None))
       \<and> (\<not> update_renders_ok d \<longrightarrow> (\<exists>e. updateData_ToSql d = ([], [], Some e)))"
  using updateData_ToSql_ok [OF assms] updateData_ToSql_fail [of d]
  by (simp add: spec_update_text_def)

theorem update_ToSql_clause_order_witness:
  "Table ex_update \<noteq> [] \<and> SetClauses ex_update \<noteq> [] \<and> update_renders_ok ex_update
   \<and> updateData_ToSql ex_update =
      (''/* p $1 */ UPDATE users SET name = $2, age = (SELECT max(age) FROM people WHERE city = $3) FROM (SELECT max(age) FROM people WHERE city = $4) AS t WHERE id = $5 ORDER BY name, age DESC LIMIT 12 OFFSET 3 RETURNING $6'',
       [GInt 1, GString ''bob'', GString ''Oslo'', GString ''Oslo'', GInt 7, GBool True], None)
   \<and> Table ex_update_failing \<noteq> [] \<and> SetClauses ex_update_failing \<noteq> []
   \<and> \<not> update_renders_ok ex_update_failing
   \<and> fst (updateData_ToSql ex_update_failing) = []"
proof -
  let ?d = "ex_update"
  let ?f = "ex_update_failing"
  have h1: "Table ?d \<noteq> []" and h2: "SetClauses ?d \<noteq> []"
    by (simp_all add: ex_update_def builder_defs)
  have h3: "update_renders_ok ?d"
    by (simp add: ex_update_def ex_select_def builder_defs spec_defs)
  have f1: "Table ?f \<noteq> []" and f2: "SetClauses ?f \<noteq> []"
    by (simp_all add: ex_update_failing_def ex_update_def builder_defs)
  have f3: "\<not> update_renders_ok ?f"
    by (simp add: ex_update_failing_def ex_update_def ex_select_def ex_failing_def
        builder_defs spec_defs)
  from update_ToSql_clause_order [OF h1 h2] h3
  have "updateData_ToSql ?d =
      (fst (ReplacePlaceholders (PlaceholderFormat ?d)
                 (spec_prefix_clause ?d @ ''UPDATE '' @ Table ?d @ spec_set_clause ?d
                  @ spec_from_clause ?d @ spec_where_clause ?d @ spec_order_by_clause ?d
                  @ spec_limit_clause ?d @ spec_offset_clause ?d @ spec_suffix_clause ?d)),
               spec_update_args ?d, None)"
    by blast
  then have r: "updateData_ToSql ?d = (''/* p $1 */ UPDATE users SET name = $2, age = (SELECT max(age) FROM people WHERE city = $3) FROM (SELECT max(age) FROM people WHERE city = $4) AS t WHERE id = $5 ORDER BY name, age DESC LIMIT 12 OFFSET 3 RETURNING $6'',
       [GInt 1, GString ''bob'', GString ''Oslo'', GString ''Oslo'', GInt 7, GBool True], None)"
    by (simp add: ex_update_def ex_select_def builder_defs spec_defs show_nat.simps digit_char_def)
  from update_ToSql_clause_order [OF f1 f2] f3
  have "fst (updateData_ToSql ?f) = []" by auto
  with r h1 h2 h3 f1 f2 f3 show ?thesis
    by simp
qed

text \<open>
  C2.  For an UPDATE record with its SET clauses, the loop renders each clause as
  \<open>column = ?\<close> and appends the plain value to the arguments when the value is not a
  fragment; when it is a fragment, the fragment's own text and arguments take that
  place, the text in parentheses exactly when the fragment is a SELECT builder.  The
  clauses are joined by commas after \<open>SET\<close>, and the argument list of \<open>ToSql\<close>
  holds the arguments of prefixes, SET clauses, FROM, WHERE and suffixes in the order
  of the text.
\<close>

theorem update_ToSql_set_clauses:
  assumes "Table d \<noteq> []" and "SetClauses d \<noteq> []" and "update_renders_ok d"
  shows "set_loop 0 (SetClauses d) (replicate (length (SetClauses d)) []) args =
           Inr (map clause_text (SetClauses d), args @ concat (map clause_args (SetClauses d)))
       \<and> write_set d (sql, args) =
           Inr (sql @ ''UPDATE '' @ Table d @ '' SET '' @ join (map clause_text (SetClauses d)) '', '',
                args @ concat (map clause_args (SetClauses d)))
       \<and> fst (snd (updateData_ToSql d)) =
           concat (map frag_args (Prefixes d)) @ concat (map clause_args (SetClauses d))
           @ (case From d of None \<Rightarrow> [] | Some f \<Rightarrow> frag_args f)
           @ concat (map frag_args (WhereParts d)) @ concat (map frag_args (Suffixes d))"
proof -
  from assms(3) have ok: "list_all clause_ok (SetClauses d)"
    by (simp add: update_renders_ok_def)
  have "set_loop 0 (SetClauses d) (replicate (length (SetClauses d)) []) args =
           Inr (map clause_text (SetClauses d), args @ concat (map clause_args (SetClauses d)))"
    by (simp add: set_loop_ok [OF ok])
  moreover have "write_set d (sql, args) =
           Inr (sql @ ''UPDATE '' @ Table d @ '' SET '' @ join (map clause_text (SetClauses d)) '', '',
                args @ concat (map clause_args (SetClauses d)))"
    using write_set_ok [OF ok] by (simp add: spec_set_clause_def)
  moreover have "fst (snd (updateData_ToSql d)) = spec_update_args d"
    by (simp add: updateData_ToSql_ok [OF assms])
  ultimately show ?thesis by (simp add: spec_update_args_def)
qed

theorem update_ToSql_set_clauses_witness:
  "Table ex_update \<noteq> [] \<and> SetClauses ex_update \<noteq> [] \<and> update_renders_ok ex_update
   \<and> set_loop 0 (SetClauses ex_update) [[], []] [GInt 1] =
       Inr ([''name = ?'', ''age = (SELECT max(age) FROM people WHERE city = ?)''],
            [GInt 1, GString ''bob'', GString ''Oslo''])
   \<and> write_set ex_update (''/* p ? */ '', [GInt 1]) =
       Inr (''/* p ? */ UPDATE users SET name = ?, age = (SELECT max(age) FROM people WHERE city = ?)'',
            [GInt 1, GString ''bob'', GString ''Oslo''])
   \<and> fst (snd (updateData_ToSql ex_update)) =
       [GInt 1, GString ''bob'', GString ''Oslo'', GString ''Oslo'', GInt 7, GBool True]"
proof -
  have h1: "Table ex_update \<noteq> []" and h2: "SetClauses ex_update \<noteq> []"
    by (simp_all add: ex_update_def builder_defs)
  have h3: "update_renders_ok ex_update"
    by (simp add: ex_update_def ex_select_def builder_defs spec_defs)
  have len: "replicate (length (SetClauses ex_update)) [] = [[], []]"
    by (simp add: ex_update_def builder_defs)
  from update_ToSql_set_clauses [OF h1 h2 h3, of "[GInt 1]" "''/* p ? */ ''"] h1 h2 h3
  show ?thesis
    unfolding len
    by (simp add: ex_update_def ex_select_def builder_defs spec_defs)
qed

text \<open>
  C3.  The validations fail exactly when a required field is missing: for UPDATE, an
  empty table name or no SET clause; for a CTE statement, an empty list of CTE entries
  or no terminal statement.  Rendering then returns its descriptive error with the
  empty text and no arguments, and nothing has been written.  With the required fields
  present, and fragments that render, there is no error.
\<close>

theorem required_field_validation:
  "(update_validate d \<noteq> None \<longleftrightarrow> Table d = [] \<or> SetClauses d = [])
   \<and> (Table d = [] \<longrightarrow>
        updateData_ToSql d = ([], [], Some (Errorf ''update statements must specify a table'')))
   \<and> (Table d \<noteq> [] \<and> SetClauses d = [] \<longrightarrow>
        updateData_ToSql d =
          ([], [], Some (Errorf ''update statements must have at least one Set clause'')))
   \<and> (Table d \<noteq> [] \<and> SetClauses d \<noteq> [] \<and> update_renders_ok d \<longrightarrow>
        snd (snd (updateData_ToSql d)) = None)
   \<and> (cte_validate c \<noteq> None \<longleftrightarrow> Ctes c = [] \<or> Statement c = None)
   \<and> (Ctes c = [] \<longrightarrow>
        commonTableExpressionsData_toSql c =
          ([], [], Some (Errorf ''common table expressions statements must have at least one label and subquery'')))
   \<and> (Ctes c \<noteq> [] \<and> Statement c = None \<longrightarrow>
        commonTableExpressionsData_toSql c =
          ([], [], Some (Errorf ''common table expressions must one of the following final statement: (select, insert, replace, update, delete)'')))
   \<and> (Ctes c \<noteq> [] \<and> Statement c \<noteq> None \<and> cte_renders_ok c \<longrightarrow>
        snd (snd (commonTableExpressionsData_toSql c)) = None)"
proof -
  have u1: "update_validate d \<noteq> None \<longleftrightarrow> Table d = [] \<or> SetClauses d = []"
    by (simp add: update_validate_def)
  have u2: "Table d = [] \<longrightarrow>
        updateData_ToSql d = ([], [], Some (Errorf ''update statements must specify a table''))"
    by (simp add: updateData_ToSql_def update_validate_def)
  have u3: "Table d \<noteq> [] \<and> SetClauses d = [] \<longrightarrow>
        updateData_ToSql d =
          ([], [], Some (Errorf ''update statements must have at least one Set clause''))"
    by (simp add: updateData_ToSql_def update_validate_def)
  have u4: "Table d \<noteq> [] \<and> SetClauses d \<noteq> [] \<and> update_renders_ok d \<longrightarrow>
        snd (snd (updateData_ToSql d)) = None"
    by (simp add: updateData_ToSql_ok)
  have c1: "cte_validate c \<noteq> None \<longleftrightarrow> Ctes c = [] \<or> Statement c = None"
    by (simp add: cte_validate_def)
  have c2: "Ctes c = [] \<longrightarrow>
        commonTableExpressionsData_toSql c =
          ([], [], Some (Errorf ''common table expressions statements must have at least one label and subquery''))"
    by (simp add: commonTableExpressionsData_toSql_def cte_validate_def)
  have c3: "Ctes c \<noteq> [] \<and> Statement c = None \<longrightarrow>
        commonTableExpressionsData_toSql c =
          ([], [], Some (Errorf ''common table expressions must one of the following final statement: (select, insert, replace, update, delete)''))"
    by (simp add: commonTableExpressionsData_toSql_def cte_validate_def)
  have c4: "Ctes c \<noteq> [] \<and> Statement c \<noteq> None \<and> cte_renders_ok c \<longrightarrow>
        snd (snd (commonTableExpressionsData_toSql c)) = None"
    by (simp add: cte_toSql_ok)
  from u1 u2 u3 u4 c1 c2 c3 c4 show ?thesis by blast
qed

theorem required_field_validation_witness:
  "Table emptyUpdate = []
   \<and> updateData_ToSql emptyUpdate =
       ([], [], Some (Errorf ''update statements must specify a table''))
   \<and> Table ex_users \<noteq> [] \<and> SetClauses ex_users = []
   \<and> updateData_ToSql ex_users =
       ([], [], Some (Errorf ''update statements must have at least one Set clause''))
   \<and> Table ex_update \<noteq> [] \<and> SetClauses ex_update \<noteq> [] \<and> update_renders_ok ex_update
   \<and> snd (snd (updateData_ToSql ex_update)) = None
   \<and> Ctes emptyCte = []
   \<and> commonTableExpressionsData_toSql emptyCte =
       ([], [], Some (Errorf ''common table expressions statements must have at least one label and subquery''))
   \<and> Ctes ex_cte_unfinished \<noteq> [] \<and> Statement ex_cte_unfinished = None
   \<and> commonTableExpressionsData_toSql ex_cte_unfinished =
       ([], [], Some (Errorf ''common table expressions must one of the following final statement: (select, insert, replace, update, delete)''))
   \<and> Ctes ex_cte_recursive \<noteq> [] \<and> Statement ex_cte_recursive \<noteq> None
   \<and> cte_renders_ok ex_cte_recursive
   \<and> snd (snd (commonTableExpressionsData_toSql ex_cte_recursive)) = None"
proof -
  have a: "Table emptyUpdate = []" "Ctes emptyCte = []"
    by (simp_all add: emptyUpdate_def emptyCte_def)
  have b: "Table ex_users \<noteq> []" "SetClauses ex_users = []"
    "Ctes ex_cte_unfinished \<noteq> []" "Statement ex_cte_unfinished = None"
    by (simp_all add: ex_users_def ex_cte_unfinished_def builder_defs cte_builder_defs)
  have c: "Table ex_update \<noteq> []" "SetClauses ex_update \<noteq> []" "update_renders_ok ex_update"
    by (simp_all add: ex_update_def ex_select_def builder_defs spec_defs)
  have d: "Ctes ex_cte_recursive \<noteq> []" "Statement ex_cte_recursive \<noteq> None"
    "cte_renders_ok ex_cte_recursive"
    by (simp_all add: ex_cte_recursive_def ex_cte_body_def ex_cte_final_def cte_builder_defs
        spec_defs)
  from required_field_validation [of emptyUpdate emptyCte]
    required_field_validation [of ex_users ex_cte_unfinished]
    required_field_validation [of ex_update ex_cte_recursive] a b c d
  show ?thesis by simp
qed

text \<open>
  C4.  \<open>SetMap\<close> appends one SET clause per entry of the map, in increasing
  lexicographic order of the column names.  Two maps with the same entries, visited by
  \<^verbatim>\<open>range\<close> in any two orders, give the same builder, hence the same SQL text and
  the same arguments in the same order.
\<close>

theorem SetMap_deterministic:
  assumes "distinct (map fst m1)" and "distinct (map fst m2)" and "set m1 = set m2"
  shows "map column (drop (length (SetClauses b)) (SetClauses (UpdateBuilder_SetMap b m1))) = sort (map fst m1)
       \<and> SetClauses (UpdateBuilder_SetMap b m1) =
           SetClauses b @ map (\<lambda>key. \<lparr>column = key, val = map_index m1 key\<rparr>) (sort (map fst m1))
       \<and> UpdateBuilder_SetMap b m1 = UpdateBuilder_SetMap b m2
       \<and> UpdateBuilder_ToSql (UpdateBuilder_SetMap b m1) = UpdateBuilder_ToSql (UpdateBuilder_SetMap b m2)"
  using same_entries_sort [OF assms] same_entries_index [OF assms]
  by (simp add: UpdateBuilder_SetMap_eq comp_def)

theorem SetMap_deterministic_witness:
  "distinct (map fst ex_map1) \<and> distinct (map fst ex_map2) \<and> set ex_map1 = set ex_map2
   \<and> map column (SetClauses (UpdateBuilder_SetMap ex_users ex_map1)) = [''a'', ''ab'', ''b'']
   \<and> UpdateBuilder_SetMap ex_users ex_map1 = UpdateBuilder_SetMap ex_users ex_map2
   \<and> UpdateBuilder_ToSql (UpdateBuilder_SetMap ex_users ex_map2) =
       (''UPDATE users SET a = ?, ab = NOW(), b = ?'', [GInt 1, GInt 2], None)"
proof -
  have h1: "distinct (map fst ex_map1)" and h2: "distinct (map fst ex_map2)"
    by (simp_all add: ex_map1_def ex_map2_def)
  have h3: "set ex_map1 = set ex_map2"
    by (auto simp: ex_map1_def ex_map2_def)
  have srt: "sort (map fst ex_map1) = [''a'', ''ab'', ''b'']"
    unfolding ex_map1_def by code_simp
  have len: "length (SetClauses ex_users) = 0"
    by (simp add: ex_users_def builder_defs)
  have r: "UpdateBuilder_ToSql (UpdateBuilder_SetMap ex_users ex_map1) =
       (''UPDATE users SET a = ?, ab = NOW(), b = ?'', [GInt 1, GInt 2], None)"
    by code_simp
  note t = SetMap_deterministic [OF h1 h2 h3, of ex_users]
  from t have e: "UpdateBuilder_SetMap ex_users ex_map1 = UpdateBuilder_SetMap ex_users ex_map2"
    by blast
  from t have "map column (drop (length (SetClauses ex_users))
      (SetClauses (UpdateBuilder_SetMap ex_users ex_map1))) = sort (map fst ex_map1)"
    by blast
  then have c: "map column (SetClauses (UpdateBuilder_SetMap ex_users ex_map1)) = [''a'', ''ab'', ''b'']"
    by (simp add: len srt)
  from r e have r2: "UpdateBuilder_ToSql (UpdateBuilder_SetMap ex_users ex_map2) =
       (''UPDATE users SET a = ?, ab = NOW(), b = ?'', [GInt 1, GInt 2], None)"
    by simp
  from h1 h2 h3 c e r2 show ?thesis by blast
qed

text \<open>
  C5.  On a well-formed store, a chained call on a builder \<open>b\<close> does not panic; it
  returns a builder whose record is the one the method describes (the record of \<open>b\<close>
  with the one field set, appended to or extended), in a new position of the store
  unless the call is \<open>SetMap\<close> of an empty map, which returns \<open>b\<close> itself; and
  \<open>b\<close> reads as before.  After any sequence of calls, on any builders of the store,
  a builder that existed before reads as the same record, and \<open>ToSql\<close> gives the same
  output for it.
\<close>

theorem chained_calls_leave_snapshots:
  assumes "wf_store st" and "b < length (snapshots st)" and "run_calls st calls = Return st'"
  shows "(\<exists>st1 b2. store_call c st b = Return (st1, b2)
            \<and> b2 < length (snapshots st1)
            \<and> (c \<noteq> CallSetMap [] \<longrightarrow> length (snapshots st) \<le> b2)
            \<and> store_GetStruct st1 b2 = call c (store_GetStruct st b)
            \<and> store_GetStruct st1 b = store_GetStruct st b
            \<and> UpdateBuilder_ToSql (store_GetStruct st1 b) = UpdateBuilder_ToSql (store_GetStruct st b))
       \<and> store_GetStruct st' b = store_GetStruct st b
       \<and> UpdateBuilder_ToSql (store_GetStruct st' b) = UpdateBuilder_ToSql (store_GetStruct st b)"
proof -
  from store_call_step [OF assms(1,2), of c]
  obtain st1 b2 where 1: "store_call c st b = Return (st1, b2)" and e1: "extends st st1"
    and b2: "b2 < length (snapshots st1)"
    and n: "c \<noteq> CallSetMap [] \<longrightarrow> length (snapshots st) \<le> b2"
    and g: "store_GetStruct st1 b2 = call c (store_GetStruct st b)"
    by blast
  have f1: "store_GetStruct st1 b = store_GetStruct st b"
    using store_GetStruct_frame [OF assms(1) e1 assms(2)] .
  from run_calls_extends [OF assms(1,3)] have "extends st st'" by simp
  then have f2: "store_GetStruct st' b = store_GetStruct st b"
    using store_GetStruct_frame [OF assms(1) _ assms(2)] by simp
  from 1 b2 n g f1 f2 show ?thesis by auto
qed

theorem chained_calls_leave_snapshots_witness:
  "wf_store new_store \<and> (0::nat) < length (snapshots new_store)
   \<and> run_calls new_store ex_program = Return ex_final
   \<and> store_GetStruct ex_final 0 = store_GetStruct new_store 0
   \<and> store_GetStruct new_store 0 = emptyUpdate
   \<and> UpdateBuilder_ToSql (store_GetStruct ex_final 2) =
       (''UPDATE users SET name = ?'', [GString ''bob''], None)
   \<and> UpdateBuilder_ToSql (store_GetStruct ex_final 3) =
       (''UPDATE users SET name = ? ORDER BY name'', [GString ''bob''], None)
   \<and> UpdateBuilder_ToSql (store_GetStruct ex_final 4) =
       (''UPDATE users SET age = ?'', [GInt 7], None)
   \<and> UpdateBuilder_ToSql (store_GetStruct ex_final 7) =
       (''UPDATE users SET a = ?, ab = NOW(), b = ?'', [GInt 1, GInt 2], None)"
proof -
  have h1: "wf_store new_store"
    by (simp add: wf_store_def new_store_def refs_below_def)
  have h2: "(0::nat) < length (snapshots new_store)"
    by (simp add: new_store_def)
  have h3: "run_calls new_store ex_program = Return ex_final"
    by code_simp
  have e: "store_GetStruct new_store 0 = emptyUpdate"
    by (simp add: store_GetStruct_def read_snapshot_def new_store_def emptyUpdate_def)
  have r2: "UpdateBuilder_ToSql (store_GetStruct ex_final 2) =
       (''UPDATE users SET name = ?'', [GString ''bob''], None)"
    by code_simp
  have r3: "UpdateBuilder_ToSql (store_GetStruct ex_final 3) =
       (''UPDATE users SET name = ? ORDER BY name'', [GString ''bob''], None)"
    by code_simp
  have r4: "UpdateBuilder_ToSql (store_GetStruct ex_final 4) =
       (''UPDATE users SET age = ?'', [GInt 7], None)"
    by code_simp
  have r7: "UpdateBuilder_ToSql (store_GetStruct ex_final 7) =
       (''UPDATE users SET a = ?, ab = NOW(), b = ?'', [GInt 1, GInt 2], None)"
    by code_simp
  from chained_calls_leave_snapshots [OF h1 h2 h3, of "CallSet ''name'' (Plain (GString ''bob''))"]
  obtain st1 b2 where
    "store_call (CallSet ''name'' (Plain (GString ''bob''))) new_store 0 = Return (st1, b2)"
    and "store_GetStruct st1 0 = store_GetStruct new_store 0"
    and f: "store_GetStruct ex_final 0 = store_GetStruct new_store 0"
    by blast
  with h1 h2 h3 e r2 r3 r4 r7 show ?thesis by simp
qed

text \<open>
  C6.  For a CTE record that passes the validations, rendering gives \<open>WITH\<close>, then
  \<open>RECURSIVE\<close> exactly when the flag is set, the CTE entries joined by commas, a
  space, and the terminal statement, all passed through the placeholder formatter; the
  arguments of the entries, in the order of the entries, come before those of the
  terminal statement.  This is what is returned when every fragment renders; when one
  does not, no text is returned at all.
\<close>

theorem cte_toSql_layout:
  assumes "Ctes d \<noteq> []" and "Statement d = Some s"
  shows "(cte_renders_ok d \<longrightarrow>
            commonTableExpressionsData_toSql d =
              (fst (ReplacePlaceholders (cte_PlaceholderFormat d)
                 (''WITH '' @ (if Recursive d then ''RECURSIVE '' else [])
                  @ join (map frag_text (Ctes d)) '', '' @ '' '' @ frag_text s)),
               concat (map frag_args (Ctes d)) @ frag_args s, None))
       \<and> (\<not> cte_renders_ok d \<longrightarrow> (\<exists>e. commonTableExpressionsData_toSql d = ([], [], Some e)))"
  using cte_toSql_ok [of d] cte_toSql_fail [of d] assms
  by (simp add: spec_cte_text_def spec_cte_args_def)

theorem cte_toSql_layout_witness:
  "Ctes ex_cte_recursive \<noteq> []
   \<and> Statement ex_cte_recursive = Some (SelectBuilder ex_cte_final)
   \<and> cte_renders_ok ex_cte_recursive
   \<and> commonTableExpressionsData_toSql ex_cte_recursive =
       (''WITH RECURSIVE t AS (SELECT a FROM x WHERE id = $1) SELECT b FROM t WHERE c = $2'',
        [GInt 1, GInt 2], None)
   \<and> Ctes ex_cte_failing \<noteq> []
   \<and> Statement ex_cte_failing = Some (SelectBuilder ex_failing)
   \<and> \<not> cte_renders_ok ex_cte_failing
   \<and> fst (commonTableExpressionsData_toSql ex_cte_failing) = []"
proof -
  have h1: "Ctes ex_cte_recursive \<noteq> []"
    and h2: "Statement ex_cte_recursive = Some (SelectBuilder ex_cte_final)"
    and h3: "cte_renders_ok ex_cte_recursive"
    by (simp_all add: ex_cte_recursive_def ex_cte_body_def ex_cte_final_def cte_builder_defs
        spec_defs)
  have f1: "Ctes ex_cte_failing \<noteq> []"
    and f2: "Statement ex_cte_failing = Some (SelectBuilder ex_failing)"
    and f3: "\<not> cte_renders_ok ex_cte_failing"
    by (simp_all add: ex_cte_failing_def ex_cte_recursive_def ex_cte_body_def ex_failing_def
        cte_builder_defs spec_defs)
  from cte_toSql_layout [OF h1 h2] h3
  have "commonTableExpressionsData_toSql ex_cte_recursive =
          (fst (ReplacePlaceholders (cte_PlaceholderFormat ex_cte_recursive)
             (''WITH '' @ (if Recursive ex_cte_recursive then ''RECURSIVE '' else [])
              @ join (map frag_text (Ctes ex_cte_recursive)) '', '' @ '' ''
              @ frag_text (SelectBuilder ex_cte_final))),
           concat (map frag_args (Ctes ex_cte_recursive)) @ frag_args (SelectBuilder ex_cte_final),
           None)"
    by blast
  then have r: "commonTableExpressionsData_toSql ex_cte_recursive =
       (''WITH RECURSIVE t AS (SELECT a FROM x WHERE id = $1) SELECT b FROM t WHERE c = $2'',
        [GInt 1, GInt 2], None)"
    by (simp add: ex_cte_recursive_def ex_cte_body_def ex_cte_final_def cte_builder_defs
        spec_defs show_nat.simps digit_char_def)
  from cte_toSql_layout [OF f1 f2] f3
  have "fst (commonTableExpressionsData_toSql ex_cte_failing) = []" by auto
  with r h1 h2 h3 f1 f2 f3 show ?thesis by simp
qed

text \<open>
  C7.  \<open>Cte\<close> with name \<open>x\<close> sets the pending name to \<open>x\<close>.  The following \<open>As\<close>
  with statement \<open>y\<close> reads the pending name and appends the entry made of \<open>x\<close> and
  \<open>y\<close> to the list of CTE entries; it changes no other field, so the pending name of
  the new snapshot is still \<open>x\<close>.
\<close>

theorem Cte_As_keeps_pending_name:
  "CurrentCteName (CommonTableExpressionsBuilder_Cte b x) = x
   \<and> CommonTableExpressionsBuilder_As (CommonTableExpressionsBuilder_Cte b x) y =
       b\<lparr>CurrentCteName := x, Ctes := Ctes b @ [CteExpr (SelectBuilder y) x]\<rparr>
   \<and> Ctes (CommonTableExpressionsBuilder_As (CommonTableExpressionsBuilder_Cte b x) y) =
       Ctes b @ [CteExpr (SelectBuilder y) x]
   \<and> CurrentCteName (CommonTableExpressionsBuilder_As (CommonTableExpressionsBuilder_Cte b x) y) = x"
  by (simp add: CommonTableExpressionsBuilder_Cte_def CommonTableExpressionsBuilder_As_def)

text \<open>
  C7 as it is written, with \<open>As\<close> clearing the pending name, fails: after \<open>Cte\<close> with the name
  \<open>t\<close> and \<open>As\<close>, the pending name is \<open>t\<close>, not the empty string.
\<close>

theorem As_clears_pending_name_counterexample:
  "CurrentCteName
     (CommonTableExpressionsBuilder_As (CommonTableExpressionsBuilder_Cte emptyCte ''t'') ex_cte_body)
   \<noteq> []"
  by (simp add: CommonTableExpressionsBuilder_Cte_def CommonTableExpressionsBuilder_As_def)

text \<open>
  C8.  \<open>As\<close> stores the SELECT builder it is given as it is, with the placeholder
  format it carries; it does not reset the format to the pass-through one, as
  \<open>FromSelect\<close> does for the UPDATE builder.  With a body in the dollar format inside
  a CTE statement in the dollar format, the marker of the body is numbered by the body
  and the outer pass starts again at one: two arguments, and the marker \<open>$1\<close> twice.
\<close>

theorem As_keeps_body_format:
  "CommonTableExpressionsBuilder_As b s =
     b\<lparr>Ctes := Ctes b @ [CteExpr (SelectBuilder s) (CurrentCteName b)]\<rparr>
   \<and> Ctes ex_cte = [CteExpr (SelectBuilder ex_cte_body) ''t'']
   \<and> sb_format ex_cte_body = Dollar
   \<and> commonTableExpressionsData_toSql ex_cte =
       (''WITH t AS (SELECT a FROM x WHERE id = $1) SELECT b FROM t WHERE c = $1'',
        [GInt 1, GInt 2], None)"
proof -
  have "commonTableExpressionsData_toSql ex_cte =
       (''WITH t AS (SELECT a FROM x WHERE id = $1) SELECT b FROM t WHERE c = $1'',
        [GInt 1, GInt 2], None)"
    by code_simp
  then show ?thesis
    by (simp add: ex_cte_def ex_cte_body_def cte_builder_defs)
qed

text \<open>
  C9.  \<open>Exec\<close>, \<open>Query\<close> and \<open>QueryRow\<close> of the CTE builder assert that the
  struct of the builder is a \<^verbatim>\<open>selectData\<close>; the struct registered for the CTE builder
  is a \<^verbatim>\<open>commonTableExpressionsData\<close>, so each of the three calls panics for every CTE
  builder, whether a runner is set or not.  \<open>Exec\<close> of the UPDATE builder, and
  \<open>Exec\<close>, \<open>Query\<close> and \<open>QueryRow\<close> of the CTE record, return
  \<^verbatim>\<open>RunnerNotSet\<close> when no runner is set, whatever the rest of the record is.
\<close>

theorem cte_builder_exec_panics:
  "CommonTableExpressionsBuilder_Exec selectData_Exec b =
     Panic ''interface conversion: interface {} is squirrel.commonTableExpressionsData, not squirrel.selectData''
   \<and> CommonTableExpressionsBuilder_Query selectData_Query b =
     Panic ''interface conversion: interface {} is squirrel.commonTableExpressionsData, not squirrel.selectData''
   \<and> CommonTableExpressionsBuilder_QueryRow selectData_QueryRow b =
     Panic ''interface conversion: interface {} is squirrel.commonTableExpressionsData, not squirrel.selectData''
   \<and> UpdateBuilder_Exec ExecWith (u\<lparr>RunWith := None\<rparr>) = Return (None, Some RunnerNotSet)
   \<and> commonTableExpressionsData_Exec ExecWith (b\<lparr>cte_RunWith := None\<rparr>) = (None, Some RunnerNotSet)
   \<and> commonTableExpressionsData_Query QueryWith (b\<lparr>cte_RunWith := None\<rparr>) = (None, Some RunnerNotSet)
   \<and> commonTableExpressionsData_QueryRow QueryRowWith (b\<lparr>cte_RunWith := None\<rparr>) =
       \<lparr>RowScanner = None, row_err = Some RunnerNotSet\<rparr>"
  by (simp add: CommonTableExpressionsBuilder_Exec_def CommonTableExpressionsBuilder_Query_def
      CommonTableExpressionsBuilder_QueryRow_def CommonTableExpressionsBuilder_GetStruct_def
      UpdateBuilder_Exec_def UpdateBuilder_GetStruct_def updateData_Exec_def
      commonTableExpressionsData_Exec_def commonTableExpressionsData_Query_def
      commonTableExpressionsData_QueryRow_def)

text \<open>
  C10.  \<open>FromSelect\<close> stores, as the FROM fragment, the aliased wrapper around the
  SELECT builder with its placeholder format set to the pass-through one, whatever
  format the builder had; no other field of the UPDATE builder changes.  The nested
  text then reaches the buffer of the UPDATE statement with its markers untouched, so
  that only the placeholder pass of the UPDATE statement numbers them.  The function
  takes the SELECT builder as a value and returns the UPDATE builder only.
\<close>

theorem FromSelect_locks_format:
  "From (UpdateBuilder_FromSelect b s a) = Some (AliasExpr (SelectBuilder (s\<lparr>sb_format := Question\<rparr>)) a)
   \<and> UpdateBuilder_FromSelect b s a = b\<lparr>From := Some (AliasExpr (SelectBuilder (s\<lparr>sb_format := Question\<rparr>)) a)\<rparr>
   \<and> UpdateBuilder_FromSelect b (s\<lparr>sb_format := f\<rparr>) a = UpdateBuilder_FromSelect b s a
   \<and> sqlizer_ToSql (SelectBuilder (s\<lparr>sb_format := Question\<rparr>)) =
       (case sb_err s of None \<Rightarrow> (sb_text s, sb_args s, None) | Some e \<Rightarrow> ([], [], Some e))
   \<and> spec_from_clause (UpdateBuilder_FromSelect b s a) =
       (case sb_err s of None \<Rightarrow> '' FROM ('' @ sb_text s @ '') AS '' @ a | Some e \<Rightarrow> '' FROM '')"
  by (simp add: UpdateBuilder_FromSelect_def SelectBuilder_PlaceholderFormat_def Alias_def
      stmt_ToSql_def spec_from_clause_def frag_text_def split: option.splits)

end
